theory Spec2Isabelle
  imports Main "HOL-Library.Finite_Map"
begin

section \<open>Environment name builder (src/node.v22/index.js)\<close>

text \<open>
  The module exports one function, \<open>createEnvironmentNameBuilder(conditions, defaultValue)\<close>,
  which validates its arguments and returns an object with three data fields
  (\<open>conditions\<close>, \<open>defaultValue\<close>, \<open>_context\<close>) and four methods (\<open>withContext\<close>,
  \<open>resetContext\<close>, \<open>evaluate\<close>, \<open>getContext\<close>).  The embedding below follows the source
  statement by statement.

  Modelling decisions:
  \<^item> JavaScript values are the datatype \<open>jsval\<close>.  Numbers are the integers that a
    JavaScript number holds exactly, and \<open>NaN\<close>.  Arrays are lists without properties of
    their own other than the elements, and functions are identifiers.  BigInts, accessors,
    symbol-keyed properties and objects whose prototype is not \<open>Object.prototype\<close> are
    outside the model.
  \<^item> An object is a finite map from property names to values, and there are two ways to hold
    one.  \<open>JRef a\<close> is a reference to the object in cell \<open>a\<close> of the store: whoever holds
    the reference reads the object as it is at that moment, two holders of one reference
    share the object, and a caller may write to it.  \<open>JObj m\<close> is an object given by its
    entries, for an object that nothing writes to after it has been created.
  \<^item> Every object that a method of the builder creates for \<open>_context\<close> or returns from
    \<open>getContext\<close> is a new cell of the store (a list of objects; an address is an index).
  \<^item> What a function value does when called on a store, a receiver and an argument, the
    source text of a function, and the current \<open>process.env\<close> are parameters (record
    \<open>host\<close>).  A call returns a value or throws a value; it reads the store and does not
    write to it.
  \<^item> An exception is a value of type \<open>js_error\<close>, returned instead of a result.
\<close>

subsection \<open>Values\<close>

type_synonym fid = nat
type_synonym addr = nat

datatype jsval =
    JUndefined
  | JNull
  | JBool bool
  | JNum int
  | JNaN
  | JStr string
  | JSymbol nat
  | JObj "(string, jsval) fmap"
  | JArr "jsval list"
  | JFun fid
  | JRef addr

type_synonym object = "(string, jsval) fmap"

type_synonym store = "object list"

text \<open>What a statement can throw: an \<open>Error\<close> or a \<open>TypeError\<close> with a message, or the
  value that the code of a caller has thrown.\<close>

datatype js_error = Error string | TypeError string | Thrown jsval

text \<open>The outcome of a method call: the evaluator itself (\<open>return this\<close>), another value,
  or an exception.\<close>

datatype ret = RThis | RVal jsval | RThrow js_error

record host =
  call :: "fid \<Rightarrow> store \<Rightarrow> jsval \<Rightarrow> jsval \<Rightarrow> jsval + jsval"
  source :: "fid \<Rightarrow> string"
  process_env :: jsval

text \<open>\<open>call H f h this arg = Inl v\<close> means that function \<open>f\<close>, called on the store \<open>h\<close>
  with the receiver \<open>this\<close> and the argument \<open>arg\<close>, throws \<open>v\<close>; \<open>Inr v\<close> means that
  it returns \<open>v\<close>.  A call without an argument has the argument \<open>undefined\<close>.\<close>

text \<open>The object in cell \<open>a\<close> of the store.\<close>

definition cell :: "store \<Rightarrow> addr \<Rightarrow> object" where
  "cell h a = (if a < length h then h ! a else fmempty)"

text \<open>The own properties of a value that is a non-null object and not an array.\<close>

fun entries :: "store \<Rightarrow> jsval \<Rightarrow> object option" where
  "entries h (JObj m) = Some m"
| "entries h (JRef a) = Some (cell h a)"
| "entries h v = None"

text \<open>The operator \<open>!!v\<close> (ToBoolean).\<close>

fun truthy :: "jsval \<Rightarrow> bool" where
  "truthy JUndefined = False"
| "truthy JNull = False"
| "truthy (JBool b) = b"
| "truthy (JNum n) = (n \<noteq> 0)"
| "truthy JNaN = False"
| "truthy (JStr s) = (s \<noteq> [])"
| "truthy (JSymbol n) = True"
| "truthy (JObj m) = True"
| "truthy (JArr xs) = True"
| "truthy (JFun f) = True"
| "truthy (JRef a) = True"

text \<open>The operator \<open>typeof v\<close>.\<close>

fun typeof :: "jsval \<Rightarrow> string" where
  "typeof JUndefined = ''undefined''"
| "typeof JNull = ''object''"
| "typeof (JBool b) = ''boolean''"
| "typeof (JNum n) = ''number''"
| "typeof JNaN = ''number''"
| "typeof (JStr s) = ''string''"
| "typeof (JSymbol n) = ''symbol''"
| "typeof (JObj m) = ''object''"
| "typeof (JArr xs) = ''object''"
| "typeof (JFun f) = ''function''"
| "typeof (JRef a) = ''object''"

text \<open>\<open>Array.isArray(v)\<close>.\<close>

fun isArray :: "jsval \<Rightarrow> bool" where
  "isArray (JArr xs) = True"
| "isArray v = False"

text \<open>\<open>key in v\<close>, for a value \<open>v\<close> that is an object or an array, and for the two keys the
  program asks for (\<open>check\<close> and \<open>name\<close>): an array has neither.\<close>

definition has_property :: "store \<Rightarrow> string \<Rightarrow> jsval \<Rightarrow> bool" where
  "has_property h k v = (case entries h v of Some m \<Rightarrow> fmlookup m k \<noteq> None | None \<Rightarrow> False)"

text \<open>The property read \<open>v.key\<close> of an own property: that of an object if it has the key,
  \<open>undefined\<close> if it has not, and \<open>undefined\<close> on the other values for the keys the program
  reads (\<open>check\<close>, \<open>name\<close>, \<open>message\<close>).  The conditions that \<open>evaluate\<close> reads have
  been validated, so they are neither \<open>null\<close> nor \<open>undefined\<close>.\<close>

definition read_prop :: "store \<Rightarrow> string \<Rightarrow> jsval \<Rightarrow> jsval" where
  "read_prop h k v =
     (case entries h v of
        Some m \<Rightarrow> (case fmlookup m k of Some x \<Rightarrow> x | None \<Rightarrow> JUndefined)
      | None \<Rightarrow> JUndefined)"

text \<open>The property read \<open>error.message\<close> on a thrown value, which may be any value at all:
  reading a property of \<open>null\<close> or \<open>undefined\<close> throws a TypeError, and a primitive, an array
  or a function has no \<open>message\<close>.  An \<open>Error\<close> object is an object with the property
  \<open>message\<close>.\<close>

fun message_of :: "store \<Rightarrow> jsval \<Rightarrow> js_error + jsval" where
  "message_of h JUndefined =
     Inl (TypeError ''Cannot read properties of undefined (reading 'message')'')"
| "message_of h JNull =
     Inl (TypeError ''Cannot read properties of null (reading 'message')'')"
| "message_of h v = Inr (read_prop h ''message'' v)"

text \<open>Decimal text of an array index, as in \<open>`${i}`\<close> and in the property names of an array.\<close>

fun digits :: "nat \<Rightarrow> string" where
  "digits n = (if n < 10 then [''0123456789'' ! n]
               else digits (n div 10) @ [''0123456789'' ! (n mod 10)])"

declare digits.simps [simp del]

text \<open>The own enumerable properties that a spread \<open>{...v}\<close> copies: those of an object, the
  indexed elements of an array, the indexed characters of a string, nothing otherwise.\<close>

fun own_entries :: "store \<Rightarrow> jsval \<Rightarrow> object" where
  "own_entries h (JObj m) = m"
| "own_entries h (JRef a) = cell h a"
| "own_entries h (JArr xs) = fmap_of_list (zip (map digits [0..<length xs]) xs)"
| "own_entries h (JStr s) =
     fmap_of_list (zip (map digits [0..<length s]) (map (\<lambda>c. JStr [c]) s))"
| "own_entries h v = fmempty"

subsection \<open>Conversion to text\<close>

text \<open>The text of a number (Number::toString) for the integers of the model.\<close>

definition number_text :: "int \<Rightarrow> string" where
  "number_text n = (if n < 0 then CHR ''-'' # digits (nat (- n)) else digits (nat n))"

fun is_primitive :: "jsval \<Rightarrow> bool" where
  "is_primitive (JObj m) = False"
| "is_primitive (JArr xs) = False"
| "is_primitive (JFun f) = False"
| "is_primitive (JRef a) = False"
| "is_primitive v = True"

text \<open>ToString of a primitive value.  A symbol has no text: the conversion throws.\<close>

fun primitive_text :: "jsval \<Rightarrow> js_error + string" where
  "primitive_text (JStr s) = Inr s"
| "primitive_text JUndefined = Inr ''undefined''"
| "primitive_text JNull = Inr ''null''"
| "primitive_text (JBool b) = Inr (if b then ''true'' else ''false'')"
| "primitive_text (JNum n) = Inr (number_text n)"
| "primitive_text JNaN = Inr ''NaN''"
| "primitive_text (JSymbol n) = Inl (TypeError ''Cannot convert a Symbol value to a string'')"
| "primitive_text v = Inl (TypeError ''Cannot convert object to primitive value'')"

text \<open>The second step of the conversion of an object \<open>self\<close> with the entries \<open>m\<close>
  (OrdinaryToPrimitive with the hint string): its own \<open>valueOf\<close>, if that is a function, is
  called and must return a primitive.  The inherited \<open>valueOf\<close> returns the object itself,
  which is no primitive.\<close>

definition via_valueOf :: "host \<Rightarrow> store \<Rightarrow> jsval \<Rightarrow> object \<Rightarrow> js_error + string" where
  "via_valueOf H h self m =
     (case fmlookup m ''valueOf'' of
        Some (JFun g) \<Rightarrow>
          (case call H g h self JUndefined of
             Inl t \<Rightarrow> Inl (Thrown t)
           | Inr r \<Rightarrow>
               if is_primitive r then primitive_text r
               else Inl (TypeError ''Cannot convert object to primitive value''))
      | _ \<Rightarrow> Inl (TypeError ''Cannot convert object to primitive value''))"

text \<open>The first step: \<open>toString\<close>.  Without an own \<open>toString\<close> the inherited one gives
  \<open>[object Object]\<close>; an own one that is a function is called, and \<open>valueOf\<close> is tried if
  it returns an object; an own one that is no function is passed over.\<close>

definition object_text :: "host \<Rightarrow> store \<Rightarrow> jsval \<Rightarrow> object \<Rightarrow> js_error + string" where
  "object_text H h self m =
     (case fmlookup m ''toString'' of
        None \<Rightarrow> Inr ''[object Object]''
      | Some (JFun f) \<Rightarrow>
          (case call H f h self JUndefined of
             Inl t \<Rightarrow> Inl (Thrown t)
           | Inr r \<Rightarrow> if is_primitive r then primitive_text r else via_valueOf H h self m)
      | Some v \<Rightarrow> via_valueOf H h self m)"

text \<open>\<open>Array.prototype.join\<close> with the separator \<open>,\<close> over the texts of the elements, from
  left to right: the first conversion that throws ends it.\<close>

fun join_texts :: "(js_error + string) list \<Rightarrow> js_error + string" where
  "join_texts [] = Inr []"
| "join_texts [t] = t"
| "join_texts (t # ts) =
     (case t of
        Inl e \<Rightarrow> Inl e
      | Inr s \<Rightarrow> (case join_texts ts of Inl e \<Rightarrow> Inl e | Inr r \<Rightarrow> Inr (s @ '','' @ r)))"

text \<open>\<open>`${v}`\<close> (ToString): the text of a primitive; of an object through \<open>toString\<close> and
  \<open>valueOf\<close>; of an array the joined texts of its elements, where \<open>undefined\<close> and
  \<open>null\<close> give the empty text; of a function its source text.\<close>

fun to_string :: "host \<Rightarrow> store \<Rightarrow> jsval \<Rightarrow> js_error + string" where
  "to_string H h (JArr xs) =
     join_texts
       (map (\<lambda>x. if x = JUndefined \<or> x = JNull then Inr [] else to_string H h x) xs)"
| "to_string H h (JObj m) = object_text H h (JObj m) m"
| "to_string H h (JRef a) = object_text H h (JRef a) (cell h a)"
| "to_string H h (JFun f) = Inr (source H f)"
| "to_string H h v = primitive_text v"

subsection \<open>The builder and the object store\<close>

text \<open>The three data fields of the object that \<open>createEnvironmentNameBuilder\<close> returns, and
  the store that \<open>_context\<close> points into.  The field \<open>conditions\<close> holds an array (the
  constructor stores nothing else), represented by the list of its elements.\<close>

record state =
  conditions :: "jsval list"
  defaultValue :: jsval
  this_context :: addr
  heap :: store

text \<open>The object that \<open>this._context\<close> denotes.\<close>

definition the_context :: "state \<Rightarrow> object" where
  "the_context s = heap s ! this_context s"

text \<open>\<open>this._context = obj\<close> with a newly created object \<open>obj\<close>.\<close>

definition set_context :: "object \<Rightarrow> state \<Rightarrow> state" where
  "set_context obj s = s\<lparr>this_context := length (heap s), heap := heap s @ [obj]\<rparr>"

subsection \<open>createEnvironmentNameBuilder\<close>

text \<open>A piece of text between apostrophes, as in \<open>'${condition.name}'\<close>.\<close>

definition quoted :: "string \<Rightarrow> string" where
  "quoted s = CHR 0x27 # s @ [CHR 0x27]"

definition must_be_object :: "nat \<Rightarrow> string" where
  "must_be_object i = ''Condition at index '' @ digits i @ '' must be an object''"

definition missing_property :: "nat \<Rightarrow> string \<Rightarrow> string" where
  "missing_property i k =
     ''Condition at index '' @ digits i @ '' missing required property '' @ quoted k"

text \<open>The validation loop \<open>for (let i = 0; i < conditions.length; i++)\<close>, from index \<open>i\<close> on.\<close>

fun validate :: "store \<Rightarrow> nat \<Rightarrow> jsval list \<Rightarrow> js_error option" where
  "validate h i [] = None"
| "validate h i (condition # rest) =
     (if \<not> truthy condition \<or> typeof condition \<noteq> ''object''
      then Some (Error (must_be_object i))
      else if \<not> has_property h ''check'' condition
      then Some (Error (missing_property i ''check''))
      else if \<not> has_property h ''name'' condition
      then Some (Error (missing_property i ''name''))
      else validate h (Suc i) rest)"

text \<open>A parameter with a default value takes the default when the argument is \<open>undefined\<close>
  (or left out).\<close>

definition or_default :: "jsval \<Rightarrow> jsval \<Rightarrow> jsval" where
  "or_default arg d = (if arg = JUndefined then d else arg)"

definition createEnvironmentNameBuilder ::
  "store \<Rightarrow> jsval \<Rightarrow> jsval \<Rightarrow> js_error + state" where
  "createEnvironmentNameBuilder h conditionsArg defaultValueArg =
     (case or_default conditionsArg (JArr []) of
        JArr cs \<Rightarrow>
          (case validate h 0 cs of
             Some e \<Rightarrow> Inl e
           | None \<Rightarrow>
               Inr \<lparr>conditions = cs,
                    defaultValue = or_default defaultValueArg (JArr []),
                    this_context = length h,
                    heap = h @ [fmempty]\<rparr>)
      | _ \<Rightarrow> Inl (Error ''Conditions must be an array''))"

subsection \<open>The methods\<close>

definition withContext :: "state \<Rightarrow> jsval \<Rightarrow> ret \<times> state" where
  "withContext s arg =
     (let ctx = or_default arg (JObj fmempty) in
      if truthy ctx \<and> typeof ctx = ''object'' \<and> \<not> isArray ctx
      then (RThis, set_context (the_context s ++\<^sub>f own_entries (heap s) ctx) s)
      else (RThis, s))"

definition resetContext :: "state \<Rightarrow> ret \<times> state" where
  "resetContext s = (RThis, set_context fmempty s)"

text \<open>The object literal \<open>{ env: process.env, ...this._context, ...runtimeContext }\<close>.\<close>

definition effective_context :: "store \<Rightarrow> jsval \<Rightarrow> object \<Rightarrow> jsval \<Rightarrow> object" where
  "effective_context h penv acc runtimeContext =
     fmupd ''env'' penv fmempty ++\<^sub>f acc ++\<^sub>f own_entries h runtimeContext"

definition match_entry :: "store \<Rightarrow> jsval \<Rightarrow> jsval" where
  "match_entry h condition = JArr [JBool True, read_prop h ''name'' condition]"

text \<open>The method call \<open>condition.check(ctx)\<close>.  Calling a value that is not a function
  throws a TypeError (an object with a \<open>message\<close>); \<open>evaluate\<close> calls function values
  only.\<close>

fun invoke :: "host \<Rightarrow> store \<Rightarrow> jsval \<Rightarrow> jsval \<Rightarrow> jsval \<Rightarrow> jsval + jsval" where
  "invoke H h this (JFun f) arg = call H f h this arg"
| "invoke H h this v arg =
     Inl (JObj (fmupd ''message'' (JStr ''condition.check is not a function'') fmempty))"

text \<open>What the handler \<open>catch (error) { throw new Error(`...`) }\<close> throws.  The template
  literal is evaluated from left to right: the text of \<open>condition.name\<close>, then the read of
  \<open>error.message\<close>, then its text; each of the three can throw in place of the new
  \<open>Error\<close>.\<close>

definition rethrown :: "host \<Rightarrow> store \<Rightarrow> jsval \<Rightarrow> jsval \<Rightarrow> js_error" where
  "rethrown H h condition error =
     (case to_string H h (read_prop h ''name'' condition) of
        Inl e \<Rightarrow> e
      | Inr name \<Rightarrow>
          (case message_of h error of
             Inl e \<Rightarrow> e
           | Inr msg \<Rightarrow>
               (case to_string H h msg of
                  Inl e \<Rightarrow> e
                | Inr message \<Rightarrow>
                    Error (''Error evaluating condition '' @ quoted name @ '': '' @ message))))"

text \<open>The body of the loop up to the value of \<open>result\<close>: the coerced return value of a
  callable check, with a failure of the call caught and handled, or the coerced static
  value.\<close>

definition condition_result :: "host \<Rightarrow> store \<Rightarrow> jsval \<Rightarrow> jsval \<Rightarrow> js_error + bool" where
  "condition_result H h ctx condition =
     (if typeof (read_prop h ''check'' condition) = ''function''
      then (case invoke H h condition (read_prop h ''check'' condition) ctx of
              Inr v \<Rightarrow> Inr (truthy v)
            | Inl error \<Rightarrow> Inl (rethrown H h condition error))
      else Inr (truthy (read_prop h ''check'' condition)))"

text \<open>The loop \<open>for (const condition of this.conditions)\<close> over the remaining conditions, with
  the array \<open>matches\<close> built so far.\<close>

fun eval_conditions ::
  "host \<Rightarrow> store \<Rightarrow> jsval \<Rightarrow> jsval list \<Rightarrow> jsval list \<Rightarrow> js_error + jsval list" where
  "eval_conditions H h ctx [] matches = Inr matches"
| "eval_conditions H h ctx (condition # rest) matches =
     (case condition_result H h ctx condition of
        Inl e \<Rightarrow> Inl e
      | Inr result \<Rightarrow>
          eval_conditions H h ctx rest
            (if result then matches @ [match_entry h condition] else matches))"

definition evaluate :: "host \<Rightarrow> state \<Rightarrow> jsval \<Rightarrow> ret \<times> state" where
  "evaluate H s arg =
     (let runtimeContext = or_default arg (JObj fmempty);
          ctx = JObj (effective_context (heap s) (process_env H) (the_context s) runtimeContext)
      in case eval_conditions H (heap s) ctx (conditions s) [] of
           Inl e \<Rightarrow> (RThrow e, s)
         | Inr matches \<Rightarrow>
             (RVal (if length matches > 0 then JArr matches else defaultValue s), s))"

definition getContext :: "state \<Rightarrow> ret \<times> state" where
  "getContext s =
     (RVal (JRef (length (heap s))), s\<lparr>heap := heap s @ [fmempty ++\<^sub>f the_context s]\<rparr>)"

subsection \<open>Calls, and runs of calls\<close>

text \<open>A caller uses the builder through its four methods.  \<open>step\<close> dispatches one call,
  \<open>run\<close> performs a sequence of calls, each under the host state of its moment.\<close>

datatype method_call = WithContext jsval | ResetContext | Evaluate jsval | GetContext

fun step :: "host \<Rightarrow> state \<Rightarrow> method_call \<Rightarrow> ret \<times> state" where
  "step H s (WithContext ctx) = withContext s ctx"
| "step H s ResetContext = resetContext s"
| "step H s (Evaluate runtimeContext) = evaluate H s runtimeContext"
| "step H s GetContext = getContext s"

fun run :: "state \<Rightarrow> (host \<times> method_call) list \<Rightarrow> state" where
  "run s [] = s"
| "run s ((H, c) # rest) = run (snd (step H s c)) rest"

text \<open>The object behind a returned reference.\<close>

definition result_object :: "ret \<times> state \<Rightarrow> object option" where
  "result_object rs =
     (case fst rs of
        RVal (JRef r) \<Rightarrow> (if r < length (heap (snd rs)) then Some (heap (snd rs) ! r) else None)
      | _ \<Rightarrow> None)"

subsection \<open>Writes of a caller\<close>

text \<open>What a caller holding a reference to cell \<open>a\<close> can do to the object in it: after any
  writes and deletions of its own properties, some object \<open>obj\<close> stands in the cell.\<close>

definition overwrite :: "addr \<Rightarrow> object \<Rightarrow> state \<Rightarrow> state" where
  "overwrite a obj s = s\<lparr>heap := (heap s)[a := obj]\<rparr>"

text \<open>The assignment \<open>c[k][k'] = v\<close> of a caller that holds a reference to cell \<open>c\<close>:
  the value under \<open>k\<close> is read from the object in that cell, and if it is a reference, the
  write goes to the object behind it.  The result is \<open>None\<close> if the value under \<open>k\<close> is
  no reference: then there is no such write in this model.\<close>

definition nested_write :: "addr \<Rightarrow> string \<Rightarrow> string \<Rightarrow> jsval \<Rightarrow> state \<Rightarrow> state option" where
  "nested_write c k k' v s =
     (case fmlookup (cell (heap s) c) k of
        Some (JRef a) \<Rightarrow> Some (overwrite a (fmupd k' v (cell (heap s) a)) s)
      | _ \<Rightarrow> None)"

subsection \<open>Notions used in the statements\<close>

text \<open>An element that passes all three tests of the validation loop.\<close>

definition valid_condition :: "store \<Rightarrow> jsval \<Rightarrow> bool" where
  "valid_condition h c =
     (truthy c \<and> typeof c = ''object'' \<and> has_property h ''check'' c \<and>
      has_property h ''name'' c)"

text \<open>The states that the constructor and the methods produce: \<open>_context\<close> refers to an
  object of the store, and the conditions have been validated.\<close>

definition wf_state :: "state \<Rightarrow> bool" where
  "wf_state s =
     (this_context s < length (heap s) \<and> list_all (valid_condition (heap s)) (conditions s))"

text \<open>The context object that \<open>evaluate\<close> hands to every callable check.\<close>

definition evaluation_context :: "host \<Rightarrow> state \<Rightarrow> jsval \<Rightarrow> jsval" where
  "evaluation_context H s arg =
     JObj (effective_context (heap s) (process_env H) (the_context s)
             (or_default arg (JObj fmempty)))"

text \<open>The check of a condition: what the predicate returns or throws if \<open>check\<close> is
  callable, the static value otherwise.\<close>

definition check_outcome :: "host \<Rightarrow> store \<Rightarrow> jsval \<Rightarrow> jsval \<Rightarrow> jsval + jsval" where
  "check_outcome H h ctx condition =
     (case read_prop h ''check'' condition of
        JFun f \<Rightarrow> call H f h condition ctx
      | v \<Rightarrow> Inr v)"

definition check_raises :: "host \<Rightarrow> store \<Rightarrow> jsval \<Rightarrow> jsval \<Rightarrow> bool" where
  "check_raises H h ctx condition =
     (case check_outcome H h ctx condition of Inl t \<Rightarrow> True | Inr v \<Rightarrow> False)"



text \<open>The lowest layer of the context: the environment variables under the key \<open>env\<close>.\<close>

definition env_layer :: "jsval \<Rightarrow> object" where
  "env_layer penv = fmupd ''env'' penv fmempty"

subsection \<open>Example inputs\<close>

text \<open>The object literal \<open>{ check: c, name: n }\<close>.\<close>

definition condition :: "jsval \<Rightarrow> string \<Rightarrow> jsval" where
  "condition c n = JObj (fmap_of_list [(''check'', c), (''name'', JStr n)])"

text \<open>A host with five functions: \<open>0\<close> is \<open>(ctx) => ctx.tier === 'premium'\<close>, \<open>1\<close> is
  \<open>() => { throw new Error('Test error') }\<close>, \<open>2\<close> is \<open>() => { throw null }\<close>, \<open>3\<close> is
  \<open>(ctx) => ctx.env\<close>, and every other one is \<open>(ctx) => ctx.cfg?.on\<close>.  The source text
  of a function plays no part in the examples.\<close>

definition example_host :: host where
  "example_host =
     \<lparr>call = (\<lambda>f h this ctx.
        if f = 0 then Inr (JBool (read_prop h ''tier'' ctx = JStr ''premium''))
        else if f = 1 then Inl (JObj (fmap_of_list [(''message'', JStr ''Test error'')]))
        else if f = 2 then Inl JNull
        else if f = 3 then Inr (read_prop h ''env'' ctx)
        else Inr (read_prop h ''on'' (read_prop h ''cfg'' ctx))),
      source = (\<lambda>f. ''() => {}''),
      process_env = JObj (fmap_of_list [(''NODE_ENV'', JStr ''test''), (''DEBUG'', JStr ''true'')])\<rparr>"

text \<open>The builder that the constructor returns on an empty store, for validated conditions
  \<open>cs\<close> and the default value \<open>d\<close>.\<close>

definition example_state :: "jsval list \<Rightarrow> jsval \<Rightarrow> state" where
  "example_state cs d = \<lparr>conditions = cs, defaultValue = d, this_context = 0, heap = [fmempty]\<rparr>"

section \<open>Basic facts\<close>

subsection \<open>The store\<close>

lemma the_context_set_context [simp]: "the_context (set_context obj s) = obj"
  by (simp add: the_context_def set_context_def)

lemma conditions_set_context [simp]: "conditions (set_context obj s) = conditions s"
  by (simp add: set_context_def)

lemma defaultValue_set_context [simp]: "defaultValue (set_context obj s) = defaultValue s"
  by (simp add: set_context_def)

lemma heap_set_context [simp]: "heap (set_context obj s) = heap s @ [obj]"
  by (simp add: set_context_def)

lemma this_context_set_context [simp]: "this_context (set_context obj s) = length (heap s)"
  by (simp add: set_context_def)

lemma result_object_getContext [simp]: "result_object (getContext s) = Some (the_context s)"
  by (simp add: result_object_def getContext_def)

lemma lookup_add_cases:
  "fmlookup (a ++\<^sub>f b) k = (case fmlookup b k of Some v \<Rightarrow> Some v | None \<Rightarrow> fmlookup a k)"
  by (auto simp: fmlookup_dom_iff split: option.splits)

lemma cell_append [simp]: "a < length h \<Longrightarrow> cell (h @ h') a = cell h a"
  by (simp add: cell_def nth_append)

lemma cell_fresh [simp]: "cell (h @ [obj]) (length h) = obj"
  by (simp add: cell_def)

subsection \<open>Objects and the other values\<close>

lemma entries_None_iff: "entries h v = None \<longleftrightarrow> (\<forall>m. v \<noteq> JObj m) \<and> (\<forall>a. v \<noteq> JRef a)"
  by (cases v) auto

lemma entries_object:
  "entries h v = Some m \<Longrightarrow> truthy v \<and> typeof v = ''object'' \<and> \<not> isArray v \<and> own_entries h v = m"
  by (cases v) auto

lemma entries_none_guard:
  "entries h v = None \<Longrightarrow> v \<noteq> JUndefined \<Longrightarrow> \<not> (truthy v \<and> typeof v = ''object'' \<and> \<not> isArray v)"
  by (cases v) auto

subsection \<open>withContext\<close>

lemma withContext_object:
  assumes "entries (heap s) arg = Some m"
  shows "withContext s arg = (RThis, set_context (the_context s ++\<^sub>f m) s)"
proof -
  have "arg \<noteq> JUndefined" using assms by auto
  then show ?thesis
    using entries_object [OF assms] by (simp add: withContext_def or_default_def)
qed

lemma withContext_undefined:
  "withContext s JUndefined = (RThis, set_context (the_context s ++\<^sub>f fmempty) s)"
  by (simp add: withContext_def or_default_def)

lemma withContext_other:
  assumes "entries (heap s) arg = None"
  shows "the_context (snd (withContext s arg)) = the_context s"
proof (cases "arg = JUndefined")
  case True
  then show ?thesis by (simp add: withContext_undefined)
next
  case False
  have "\<not> (truthy arg \<and> typeof arg = ''object'' \<and> \<not> isArray arg)"
    using entries_none_guard [OF assms False] .
  then have "withContext s arg = (RThis, s)"
    using False by (simp only: withContext_def or_default_def Let_def if_False)
  then show ?thesis by simp
qed

lemma fst_withContext [simp]: "fst (withContext s arg) = RThis"
  by (simp add: withContext_def Let_def)

lemma conditions_withContext [simp]: "conditions (snd (withContext s arg)) = conditions s"
  by (simp add: withContext_def Let_def)

lemma defaultValue_withContext [simp]: "defaultValue (snd (withContext s arg)) = defaultValue s"
  by (simp add: withContext_def Let_def)

subsection \<open>The evaluation loop\<close>

lemma evaluate_unfold:
  "evaluate H s arg =
     (case eval_conditions H (heap s) (evaluation_context H s arg) (conditions s) [] of
        Inl e \<Rightarrow> (RThrow e, s)
      | Inr matches \<Rightarrow> (RVal (if matches = [] then defaultValue s else JArr matches), s))"
  by (simp add: evaluate_def evaluation_context_def Let_def split: sum.splits)

text \<open>The loop body in terms of the outcome of the check.\<close>

lemma condition_result_outcome:
  "condition_result H h ctx c =
     (case check_outcome H h ctx c of
        Inr v \<Rightarrow> Inr (truthy v)
      | Inl t \<Rightarrow> Inl (rethrown H h c t))"
  by (cases "read_prop h ''check'' c") (simp_all add: condition_result_def check_outcome_def)

lemma eval_conditions_step_return:
  assumes "check_outcome H h ctx c = Inr v"
  shows "eval_conditions H h ctx (c # rest) ms =
         eval_conditions H h ctx rest (if truthy v then ms @ [match_entry h c] else ms)"
  using assms by (simp add: condition_result_outcome)

lemma eval_conditions_step_throw:
  assumes "check_outcome H h ctx c = Inl t"
  shows "eval_conditions H h ctx (c # rest) ms = Inl (rethrown H h c t)"
  using assms by (simp add: condition_result_outcome split: sum.splits)


text \<open>The loop stops at the first check that raises, whatever follows it and whatever has
  been matched before.\<close>

lemma eval_conditions_first_raise:
  assumes "\<forall>c \<in> set pre. \<not> check_raises H h ctx c"
      and "check_outcome H h ctx c = Inl t"
  shows "eval_conditions H h ctx (pre @ c # post) ms = Inl (rethrown H h c t)"
  using assms(1)
proof (induction pre arbitrary: ms)
  case Nil
  show ?case by (simp add: eval_conditions_step_throw [OF assms(2)] del: eval_conditions.simps)
next
  case (Cons p pre)
  from Cons.prems obtain v where v: "check_outcome H h ctx p = Inr v"
    by (auto simp: check_raises_def split: sum.splits)
  have rest: "\<forall>c \<in> set pre. \<not> check_raises H h ctx c"
    using Cons.prems by simp
  show ?case
    using Cons.IH [OF rest]
    by (simp add: eval_conditions_step_return [OF v] del: eval_conditions.simps)
qed


text \<open>What the handler throws when all three conversions of the template literal succeed.\<close>

lemma rethrown_formatted:
  assumes "to_string H h (read_prop h ''name'' c) = Inr name"
      and "message_of h t = Inr msg"
      and "to_string H h msg = Inr message"
  shows "rethrown H h c t =
         Error (''Error evaluating condition '' @ quoted name @ '': '' @ message)"
  using assms by (simp add: rethrown_def)

subsection \<open>Validation and construction\<close>

lemma has_property_append:
  assumes "has_property h k c"
  shows "has_property (h @ h') k c"
proof (cases c)
  case (JRef a)
  with assms have "a < length h"
    by (auto simp: has_property_def cell_def split: if_splits)
  with assms JRef show ?thesis by (simp add: has_property_def)
qed (use assms in \<open>simp_all add: has_property_def\<close>)

lemma read_prop_append:
  assumes "has_property h k c"
  shows "read_prop (h @ h') k' c = read_prop h k' c"
proof (cases c)
  case (JRef a)
  with assms have "a < length h"
    by (auto simp: has_property_def cell_def split: if_splits)
  with JRef show ?thesis by (simp add: read_prop_def)
qed (simp_all add: read_prop_def)

lemma valid_condition_append:
  "valid_condition h c \<Longrightarrow> valid_condition (h @ h') c"
  by (simp add: valid_condition_def has_property_append)

lemma list_all_valid_append:
  "list_all (valid_condition h) cs \<Longrightarrow> list_all (valid_condition (h @ h')) cs"
  by (induction cs) (simp_all add: valid_condition_append)

lemma validate_valid_prefix:
  assumes "list_all (valid_condition h) pre"
  shows "validate h i (pre @ rest) = validate h (i + length pre) rest"
  using assms by (induction pre arbitrary: i) (simp_all add: valid_condition_def)

lemma validate_all_valid:
  assumes "list_all (valid_condition h) cs"
  shows "validate h i cs = None"
  using validate_valid_prefix [OF assms, of i "[]"] by simp

lemma validate_None_valid:
  assumes "validate h i cs = None"
  shows "list_all (valid_condition h) cs"
  using assms by (induction cs arbitrary: i) (auto simp: valid_condition_def split: if_splits)

lemma create_array:
  "createEnvironmentNameBuilder h (JArr cs) d =
     (case validate h 0 cs of
        Some e \<Rightarrow> Inl e
      | None \<Rightarrow> Inr \<lparr>conditions = cs, defaultValue = or_default d (JArr []),
                      this_context = length h, heap = h @ [fmempty]\<rparr>)"
  by (simp add: createEnvironmentNameBuilder_def or_default_def)

lemma create_not_array:
  assumes "\<not> isArray c" and "c \<noteq> JUndefined"
  shows "createEnvironmentNameBuilder h c d = Inl (Error ''Conditions must be an array'')"
  using assms by (cases c) (simp_all add: createEnvironmentNameBuilder_def or_default_def)

lemma create_first_invalid:
  assumes "list_all (valid_condition h) pre"
  shows "createEnvironmentNameBuilder h (JArr (pre @ c # post)) d =
           (case validate h (length pre) (c # post) of
              Some e \<Rightarrow> Inl e
            | None \<Rightarrow> Inr \<lparr>conditions = pre @ c # post, defaultValue = or_default d (JArr []),
                            this_context = length h, heap = h @ [fmempty]\<rparr>)"
  by (simp add: create_array validate_valid_prefix [OF assms] del: validate.simps)

lemma create_wf:
  assumes "createEnvironmentNameBuilder h c d = Inr s"
  shows "wf_state s \<and> the_context s = fmempty"
proof -
  obtain cs where cs: "or_default c (JArr []) = JArr cs"
    using assms by (auto simp: createEnvironmentNameBuilder_def split: jsval.splits)
  then have v: "validate h 0 cs = None"
    and s: "s = \<lparr>conditions = cs, defaultValue = or_default d (JArr []),
                  this_context = length h, heap = h @ [fmempty]\<rparr>"
    using assms by (auto simp: createEnvironmentNameBuilder_def split: option.splits)
  show ?thesis
    using list_all_valid_append [OF validate_None_valid [OF v], of "[fmempty]"]
    by (simp add: s wf_state_def the_context_def)
qed

subsection \<open>The effective context\<close>

lemma own_entries_or_default [simp]:
  "own_entries h (or_default arg (JObj fmempty)) = own_entries h arg"
  by (simp add: or_default_def)

lemma lookup_env_layer: "fmlookup (env_layer penv) k = (if k = ''env'' then Some penv else None)"
  by (simp add: env_layer_def)

lemma lookup_effective_context:
  "fmlookup (effective_context h penv acc rt) k =
     (case fmlookup (own_entries h rt) k of
        Some v \<Rightarrow> Some v
      | None \<Rightarrow> (case fmlookup acc k of
                   Some v \<Rightarrow> Some v
                 | None \<Rightarrow> fmlookup (env_layer penv) k))"
  unfolding effective_context_def env_layer_def lookup_add_cases ..

lemma read_evaluation_context:
  "read_prop h k (evaluation_context H s arg) =
     (case fmlookup (own_entries (heap s) arg) k of
        Some v \<Rightarrow> v
      | None \<Rightarrow> (case fmlookup (the_context s) k of
                   Some v \<Rightarrow> v
                 | None \<Rightarrow> (case fmlookup (env_layer (process_env H)) k of
                              Some v \<Rightarrow> v
                            | None \<Rightarrow> JUndefined)))"
  by (simp add: evaluation_context_def read_prop_def lookup_effective_context split: option.splits)

text \<open>A single condition whose check is the function \<open>(ctx) => ctx[k]\<close>.\<close>

lemma evaluate_probe:
  assumes "conditions s = [c]" and "read_prop (heap s) ''check'' c = JFun f"
      and "\<forall>ctx. call H f (heap s) c ctx = Inr (read_prop (heap s) k ctx)"
  shows "fst (evaluate H s arg) =
           RVal (if truthy (read_prop (heap s) k (evaluation_context H s arg))
                 then JArr [match_entry (heap s) c] else defaultValue s)"
  using assms by (simp add: evaluate_unfold condition_result_outcome check_outcome_def)

subsection \<open>getContext and the store\<close>

lemma getContext_eq:
  "getContext s = (RVal (JRef (length (heap s))), s\<lparr>heap := heap s @ [the_context s]\<rparr>)"
  by (simp add: getContext_def)

lemma snd_getContext: "snd (getContext s) = s\<lparr>heap := heap s @ [the_context s]\<rparr>"
  by (simp add: getContext_eq)

lemma the_context_heap_append:
  assumes "this_context s < length (heap s)"
  shows "the_context (s\<lparr>heap := heap s @ [obj]\<rparr>) = the_context s"
  using assms by (simp add: the_context_def nth_append)

lemma snd_evaluate [simp]: "snd (evaluate H s arg) = s"
  by (simp add: evaluate_unfold split: sum.splits)

text \<open>The objects behind the values that \<open>evaluate\<close> reads, when a cell is added to the
  store or the newest cell is replaced.\<close>

lemma own_entries_append:
  assumes "arg \<noteq> JRef (length h)"
  shows "own_entries (h @ [x]) arg = own_entries (h @ [y]) arg"
proof (cases arg)
  case (JRef a)
  then have "a \<noteq> length h" using assms by simp
  then show ?thesis
    by (simp add: JRef cell_def nth_append)
qed simp_all

lemma match_entry_append:
  assumes "valid_condition h c"
  shows "match_entry (h @ h') c = match_entry h c"
  using assms by (simp add: match_entry_def valid_condition_def read_prop_append [of h "''check''"])

text \<open>The loop depends on the store through the loop body and the names only.\<close>

lemma eval_conditions_cong:
  assumes "\<forall>c \<in> set cs. condition_result H h ctx c = condition_result H h' ctx c"
      and "\<forall>c \<in> set cs. match_entry h c = match_entry h' c"
  shows "eval_conditions H h ctx cs ms = eval_conditions H h' ctx cs ms"
  using assms by (induction cs arbitrary: ms) (simp_all split: sum.splits)

subsection \<open>Invariants of the calls\<close>

lemma conditions_step [simp]: "conditions (snd (step H s c)) = conditions s"
  by (cases c) (simp_all add: resetContext_def snd_getContext)

lemma defaultValue_step [simp]: "defaultValue (snd (step H s c)) = defaultValue s"
  by (cases c) (simp_all add: resetContext_def snd_getContext)

lemma conditions_run [simp]: "conditions (run s calls) = conditions s"
  by (induction s calls rule: run.induct) simp_all

lemma defaultValue_run [simp]: "defaultValue (run s calls) = defaultValue s"
  by (induction s calls rule: run.induct) simp_all

text \<open>A call adds cells to the store and writes to none that is there.\<close>

lemma heap_step: "take (length (heap s)) (heap (snd (step H s c))) = heap s"
  by (cases c) (simp_all add: resetContext_def snd_getContext withContext_def Let_def)

lemma wf_state_set_context:
  assumes "wf_state s"
  shows "wf_state (set_context obj s)"
  using assms by (simp add: wf_state_def list_all_valid_append)

lemma wf_state_step:
  assumes "wf_state s"
  shows "wf_state (snd (step H s c))"
proof (cases c)
  case (WithContext ctx)
  then show ?thesis
    using assms wf_state_set_context [OF assms] by (simp add: withContext_def Let_def)
next
  case ResetContext
  then show ?thesis
    using wf_state_set_context [OF assms] by (simp add: resetContext_def)
next
  case (Evaluate arg)
  then show ?thesis using assms by simp
next
  case GetContext
  then show ?thesis
    using assms by (simp add: snd_getContext wf_state_def list_all_valid_append)
qed

lemma wf_state_run:
  assumes "wf_state s"
  shows "wf_state (run s calls)"
  using assms by (induction s calls rule: run.induct) (simp_all add: wf_state_step)

text \<open>A call other than \<open>resetContext\<close> keeps every key of the accumulated context.\<close>

lemma keys_step:
  assumes "wf_state s" and "c \<noteq> ResetContext"
  shows "fmdom (the_context s) |\<subseteq>| fmdom (the_context (snd (step H s c)))"
proof (cases c)
  case (WithContext ctx)
  have "the_context (snd (withContext s ctx)) = the_context s \<or>
        the_context (snd (withContext s ctx)) =
          the_context s ++\<^sub>f own_entries (heap s) (or_default ctx (JObj fmempty))"
    by (simp add: withContext_def Let_def)
  then show ?thesis
    using WithContext by auto
next
  case ResetContext
  then show ?thesis using assms(2) by simp
next
  case (Evaluate arg)
  then show ?thesis by simp
next
  case GetContext
  have "the_context (snd (getContext s)) = the_context s"
    unfolding snd_getContext using assms(1)
    by (intro the_context_heap_append) (simp add: wf_state_def)
  then show ?thesis using GetContext by simp
qed

lemma keys_run:
  assumes "wf_state s" and "ResetContext \<notin> snd ` set calls"
  shows "fmdom (the_context s) |\<subseteq>| fmdom (the_context (run s calls))"
  using assms
proof (induction s calls rule: run.induct)
  case (1 s)
  show ?case by simp
next
  case (2 s H c rest)
  have c: "c \<noteq> ResetContext" and rest: "ResetContext \<notin> snd ` set rest"
    using "2.prems"(2) by auto
  have "fmdom (the_context s) |\<subseteq>| fmdom (the_context (snd (step H s c)))"
    by (rule keys_step [OF "2.prems"(1) c])
  also have "\<dots> |\<subseteq>| fmdom (the_context (run (snd (step H s c)) rest))"
    by (rule "2.IH" [OF wf_state_step [OF "2.prems"(1)] rest])
  finally show ?case by simp
qed

section \<open>Claims about construction\<close>

subsection \<open>C4: validation in list order, failing at the first violation\<close>

text \<open>
  C4.  \<open>createEnvironmentNameBuilder\<close> validates before it returns anything, in list order,
  and fails at the first violation.  A \<open>conditions\<close> argument that is given and is not an
  array fails with \<open>Conditions must be an array\<close> (an argument left out, or \<open>undefined\<close>,
  stands for the empty array).  If the elements before index \<open>i\<close> are valid and element
  \<open>i\<close> is an object without a \<open>check\<close> property, the failure is
  \<open>Condition at index i missing required property 'check'\<close>; if it has \<open>check\<close> but no
  \<open>name\<close>, it is the same message for \<open>'name'\<close>.  Presence is what is tested: an object
  with both properties is valid whatever the value of \<open>check\<close> (\<open>false\<close>, \<open>0\<close>, the empty
  string).  If all elements are valid, no error is raised and the evaluator returned holds
  the conditions, the default value and a new, empty accumulated context; and construction
  succeeds only then.
\<close>

theorem construction_validates_in_order:
  "(\<not> isArray c \<and> c \<noteq> JUndefined \<longrightarrow>
      createEnvironmentNameBuilder h c d = Inl (Error ''Conditions must be an array'')) \<and>
   (list_all (valid_condition h) pre \<and> truthy e \<and> typeof e = ''object'' \<and>
    \<not> has_property h ''check'' e \<longrightarrow>
      createEnvironmentNameBuilder h (JArr (pre @ e # post)) d =
        Inl (Error (''Condition at index '' @ digits (length pre) @
                    '' missing required property '' @ quoted ''check''))) \<and>
   (list_all (valid_condition h) pre \<and> truthy e \<and> typeof e = ''object'' \<and>
    has_property h ''check'' e \<and> \<not> has_property h ''name'' e \<longrightarrow>
      createEnvironmentNameBuilder h (JArr (pre @ e # post)) d =
        Inl (Error (''Condition at index '' @ digits (length pre) @
                    '' missing required property '' @ quoted ''name''))) \<and>
   (fmlookup m ''check'' = Some v \<and> fmlookup m ''name'' = Some n \<longrightarrow>
      valid_condition h (JObj m)) \<and>
   (list_all (valid_condition h) cs \<longrightarrow>
      createEnvironmentNameBuilder h (JArr cs) d =
        Inr \<lparr>conditions = cs, defaultValue = or_default d (JArr []),
             this_context = length h, heap = h @ [fmempty]\<rparr>) \<and>
   (createEnvironmentNameBuilder h (JArr cs) d = Inr s \<longrightarrow>
      list_all (valid_condition h) cs \<and> conditions s = cs \<and> the_context s = fmempty) \<and>
   createEnvironmentNameBuilder h JUndefined d = createEnvironmentNameBuilder h (JArr []) d"
proof (intro conjI impI)
  assume "\<not> isArray c \<and> c \<noteq> JUndefined"
  then show "createEnvironmentNameBuilder h c d = Inl (Error ''Conditions must be an array'')"
    by (simp add: create_not_array)
next
  assume a: "list_all (valid_condition h) pre \<and> truthy e \<and> typeof e = ''object'' \<and>
             \<not> has_property h ''check'' e"
  then have "list_all (valid_condition h) pre" by simp
  from create_first_invalid [OF this] a
  show "createEnvironmentNameBuilder h (JArr (pre @ e # post)) d =
          Inl (Error (''Condition at index '' @ digits (length pre) @
                      '' missing required property '' @ quoted ''check''))"
    by (simp add: missing_property_def)
next
  assume a: "list_all (valid_condition h) pre \<and> truthy e \<and> typeof e = ''object'' \<and>
             has_property h ''check'' e \<and> \<not> has_property h ''name'' e"
  then have "list_all (valid_condition h) pre" by simp
  from create_first_invalid [OF this] a
  show "createEnvironmentNameBuilder h (JArr (pre @ e # post)) d =
          Inl (Error (''Condition at index '' @ digits (length pre) @
                      '' missing required property '' @ quoted ''name''))"
    by (simp add: missing_property_def)
next
  assume "fmlookup m ''check'' = Some v \<and> fmlookup m ''name'' = Some n"
  then show "valid_condition h (JObj m)"
    by (simp add: valid_condition_def has_property_def)
next
  assume "list_all (valid_condition h) cs"
  then show "createEnvironmentNameBuilder h (JArr cs) d =
      Inr \<lparr>conditions = cs, defaultValue = or_default d (JArr []),
           this_context = length h, heap = h @ [fmempty]\<rparr>"
    by (simp add: create_array validate_all_valid)
next
  assume a: "createEnvironmentNameBuilder h (JArr cs) d = Inr s"
  then have "validate h 0 cs = None"
    by (simp add: create_array split: option.splits)
  then show "list_all (valid_condition h) cs"
    by (rule validate_None_valid)
next
  assume a: "createEnvironmentNameBuilder h (JArr cs) d = Inr s"
  then show "conditions s = cs"
    by (auto simp: create_array split: option.splits)
next
  assume a: "createEnvironmentNameBuilder h (JArr cs) d = Inr s"
  then show "the_context s = fmempty"
    using create_wf by blast
next
  show "createEnvironmentNameBuilder h JUndefined d = createEnvironmentNameBuilder h (JArr []) d"
    by (simp add: createEnvironmentNameBuilder_def or_default_def)
qed

text \<open>A record in place of the array; a second element without \<open>check\<close>, then without
  \<open>name\<close> (the third element, \<open>null\<close>, is not reached); three conditions whose checks are
  \<open>false\<close>, \<open>0\<close> and the empty string; an object whose \<open>check\<close> is \<open>undefined\<close> and
  whose \<open>name\<close> is \<open>null\<close>.\<close>

theorem construction_validates_in_order_witness:
  "createEnvironmentNameBuilder []
     (JObj (fmap_of_list [(''check'', JBool True), (''name'', JStr ''test'')])) JUndefined =
     Inl (Error ''Conditions must be an array'') \<and>
   createEnvironmentNameBuilder []
     (JArr [condition (JBool True) ''a'', JObj (fmap_of_list [(''name'', JStr ''test'')]), JNull])
     JUndefined =
     Inl (Error (''Condition at index 1 missing required property '' @ quoted ''check'')) \<and>
   createEnvironmentNameBuilder []
     (JArr [condition (JBool True) ''a'', JObj (fmap_of_list [(''check'', JBool True)]), JNull])
     JUndefined =
     Inl (Error (''Condition at index 1 missing required property '' @ quoted ''name'')) \<and>
   createEnvironmentNameBuilder []
     (JArr [condition (JBool False) ''f'', condition (JNum 0) ''z'', condition (JStr []) ''e''])
     JUndefined =
     Inr (example_state
            [condition (JBool False) ''f'', condition (JNum 0) ''z'', condition (JStr []) ''e'']
            (JArr [])) \<and>
   valid_condition [] (JObj (fmap_of_list [(''check'', JUndefined), (''name'', JNull)])) \<and>
   list_all (valid_condition [])
     [condition (JBool False) ''f'', condition (JNum 0) ''z'', condition (JStr []) ''e''] \<and>
   the_context
     (example_state
        [condition (JBool False) ''f'', condition (JNum 0) ''z'', condition (JStr []) ''e'']
        (JArr [])) = fmempty"
proof -
  let ?rec = "JObj (fmap_of_list [(''check'', JBool True), (''name'', JStr ''test'')])"
  let ?a = "condition (JBool True) ''a''"
  let ?noc = "JObj (fmap_of_list [(''name'', JStr ''test'')])"
  let ?non = "JObj (fmap_of_list [(''check'', JBool True)])"
  let ?ok = "[condition (JBool False) ''f'', condition (JNum 0) ''z'', condition (JStr []) ''e'']"
  have pre: "list_all (valid_condition []) [?a]"
    by (simp add: valid_condition_def has_property_def condition_def)
  have ok: "list_all (valid_condition []) ?ok"
    by (simp add: valid_condition_def has_property_def condition_def)
  have d1: "digits (length [?a]) = ''1''"
    by (simp add: digits.simps)
  have noc: "truthy ?noc \<and> typeof ?noc = ''object'' \<and> \<not> has_property [] ''check'' ?noc"
    by (simp add: has_property_def)
  have non: "truthy ?non \<and> typeof ?non = ''object'' \<and> has_property [] ''check'' ?non \<and>
             \<not> has_property [] ''name'' ?non"
    by (simp add: has_property_def)
  have w1: "createEnvironmentNameBuilder [] ?rec JUndefined =
              Inl (Error ''Conditions must be an array'')"
    using construction_validates_in_order [of ?rec "[]" JUndefined, THEN conjunct1] by simp
  have w2: "createEnvironmentNameBuilder [] (JArr ([?a] @ ?noc # [JNull])) JUndefined =
              Inl (Error (''Condition at index '' @ digits (length [?a]) @
                          '' missing required property '' @ quoted ''check''))"
    using construction_validates_in_order
            [of JNull "[]" JUndefined "[?a]" ?noc "[JNull]", THEN conjunct2, THEN conjunct1]
          pre noc
    by blast
  have w3: "createEnvironmentNameBuilder [] (JArr ([?a] @ ?non # [JNull])) JUndefined =
              Inl (Error (''Condition at index '' @ digits (length [?a]) @
                          '' missing required property '' @ quoted ''name''))"
    using construction_validates_in_order
            [of JNull "[]" JUndefined "[?a]" ?non "[JNull]",
             THEN conjunct2, THEN conjunct2, THEN conjunct1]
          pre non
    by blast
  have w4: "createEnvironmentNameBuilder [] (JArr ?ok) JUndefined =
              Inr \<lparr>conditions = ?ok, defaultValue = or_default JUndefined (JArr []),
                   this_context = length ([] :: object list), heap = [] @ [fmempty]\<rparr>"
    using construction_validates_in_order
            [of JNull "[]" JUndefined "[]" JNull "[]" fmempty JNull JNull ?ok,
             THEN conjunct2, THEN conjunct2, THEN conjunct2, THEN conjunct2, THEN conjunct1]
          ok
    by blast
  have w4': "createEnvironmentNameBuilder [] (JArr ?ok) JUndefined =
               Inr (example_state ?ok (JArr []))"
    using w4 by (simp add: example_state_def or_default_def)
  have w5: "valid_condition [] (JObj (fmap_of_list [(''check'', JUndefined), (''name'', JNull)]))"
    using construction_validates_in_order
            [of JNull "[]" JUndefined "[]" JNull "[]"
                "fmap_of_list [(''check'', JUndefined), (''name'', JNull)]" JUndefined JNull,
             THEN conjunct2, THEN conjunct2, THEN conjunct2, THEN conjunct1]
    by simp
  have w6: "list_all (valid_condition []) ?ok \<and> conditions (example_state ?ok (JArr [])) = ?ok \<and>
            the_context (example_state ?ok (JArr [])) = fmempty"
    using construction_validates_in_order
            [of JNull "[]" JUndefined "[]" JNull "[]" fmempty JNull JNull ?ok
                "example_state ?ok (JArr [])",
             THEN conjunct2, THEN conjunct2, THEN conjunct2, THEN conjunct2, THEN conjunct2,
             THEN conjunct1]
          w4'
    by blast
  show ?thesis
    using w1 w2 w3 w4' w5 w6 unfolding d1 by simp
qed

subsection \<open>C5: elements that are not objects\<close>

text \<open>
  What the first test of the loop rejects.  If the elements before index \<open>i\<close> are valid
  and element \<open>i\<close> is falsy or has a \<open>typeof\<close> other than \<open>'object'\<close>, construction
  fails with \<open>Condition at index i must be an object\<close>.  The elements concerned are
  \<open>undefined\<close>, \<open>null\<close>, the booleans, the numbers, the strings, the symbols and the
  functions; an array is not among them.
\<close>

lemma non_object_condition_rejected:
  "(list_all (valid_condition h) pre \<and> (\<not> truthy e \<or> typeof e \<noteq> ''object'') \<longrightarrow>
      createEnvironmentNameBuilder h (JArr (pre @ e # post)) d =
        Inl (Error (''Condition at index '' @ digits (length pre) @ '' must be an object''))) \<and>
   ((\<not> truthy e \<or> typeof e \<noteq> ''object'') \<longleftrightarrow>
      e = JUndefined \<or> e = JNull \<or> e = JNaN \<or>
      (\<exists>b. e = JBool b) \<or> (\<exists>n. e = JNum n) \<or> (\<exists>s. e = JStr s) \<or>
      (\<exists>n. e = JSymbol n) \<or> (\<exists>f. e = JFun f))"
proof (intro conjI impI)
  assume a: "list_all (valid_condition h) pre \<and> (\<not> truthy e \<or> typeof e \<noteq> ''object'')"
  then have "list_all (valid_condition h) pre" by simp
  from create_first_invalid [OF this] a
  show "createEnvironmentNameBuilder h (JArr (pre @ e # post)) d =
          Inl (Error (''Condition at index '' @ digits (length pre) @ '' must be an object''))"
    by (auto simp: must_be_object_def)
next
  show "(\<not> truthy e \<or> typeof e \<noteq> ''object'') \<longleftrightarrow>
      e = JUndefined \<or> e = JNull \<or> e = JNaN \<or>
      (\<exists>b. e = JBool b) \<or> (\<exists>n. e = JNum n) \<or> (\<exists>s. e = JStr s) \<or>
      (\<exists>n. e = JSymbol n) \<or> (\<exists>f. e = JFun f)"
    by (cases e) simp_all
qed

text \<open>An array element that follows valid elements passes the first test, whatever it
  holds, and fails the second: the message is the one about the missing \<open>check\<close>.\<close>

lemma array_condition_missing_check:
  assumes "list_all (valid_condition h) pre"
  shows "createEnvironmentNameBuilder h (JArr (pre @ JArr xs # post)) d =
           Inl (Error (''Condition at index '' @ digits (length pre) @
                       '' missing required property '' @ quoted ''check''))"
  by (simp add: create_first_invalid [OF assms] has_property_def missing_property_def)

text \<open>
  C5.  The claim is that a conditions sequence whose element at index \<open>i\<close> is not a
  non-null structured record, an array in particular, fails with
  \<open>Condition at index i must be an object\<close>.  The code at the input
  \<open>createEnvironmentNameBuilder([ [] ])\<close>: the test is
  \<open>!condition || typeof condition !== 'object'\<close>, \<open>typeof []\<close> is \<open>'object'\<close>, so the
  array passes the test meant to reject it and construction fails with
  \<open>Condition at index 0 missing required property 'check'\<close> instead.  The guard of
  \<open>withContext\<close> asks \<open>!Array.isArray(ctx)\<close> in addition and does exclude the same array:
  the call \<open>withContext([])\<close> is ignored.
\<close>

theorem array_condition_reported_as_missing_check:
  "createEnvironmentNameBuilder [] (JArr [JArr []]) JUndefined =
     Inl (Error (''Condition at index 0 missing required property '' @ quoted ''check'')) \<and>
   createEnvironmentNameBuilder [] (JArr [JArr []]) JUndefined \<noteq>
     Inl (Error ''Condition at index 0 must be an object'') \<and>
   createEnvironmentNameBuilder [] (JArr [JNull]) JUndefined =
     Inl (Error ''Condition at index 0 must be an object'') \<and>
   withContext (example_state [] (JArr [])) (JArr []) = (RThis, example_state [] (JArr []))"
  by (simp add: createEnvironmentNameBuilder_def or_default_def missing_property_def
        must_be_object_def has_property_def digits.simps quoted_def withContext_def)

section \<open>Claims about evaluate\<close>

subsection \<open>C1: the match list, or the default value\<close>




subsection \<open>C2: precedence of the three layers\<close>

text \<open>
  C2.  The effective context is built from three mappings: the environment layer
  \<open>{env: process.env}\<close>, the accumulated context and the runtime context.  For every key
  \<open>k\<close> that all three layers set, the context that \<open>evaluate\<close> hands to the checks has the
  runtime value under \<open>k\<close>; if the runtime context has no entry for \<open>k\<close>, it has the
  accumulated value; if neither has one, it has the value of the environment layer.  (The
  environment layer has the single key \<open>env\<close>, whose value is the whole of \<open>process.env\<close>.)
  A check \<open>(ctx) => ctx[k]\<close> is judged by \<open>evaluate\<close> on exactly that value.  A key other
  than \<open>env\<close> that neither the accumulated nor the runtime context sets is not a key of the
  effective context.
\<close>

theorem context_precedence:
  "(fmlookup (env_layer (process_env H)) k = Some e \<longleftrightarrow> k = ''env'' \<and> e = process_env H) \<and>
   (fmlookup (env_layer (process_env H)) k = Some e \<and> fmlookup (the_context s) k = Some a \<and>
    fmlookup (own_entries (heap s) arg) k = Some r \<longrightarrow>
      read_prop (heap s) k (evaluation_context H s arg) = r) \<and>
   (fmlookup (env_layer (process_env H)) k = Some e \<and> fmlookup (the_context s) k = Some a \<and>
    fmlookup (own_entries (heap s) arg) k = None \<longrightarrow>
      read_prop (heap s) k (evaluation_context H s arg) = a) \<and>
   (fmlookup (env_layer (process_env H)) k = Some e \<and> fmlookup (the_context s) k = None \<and>
    fmlookup (own_entries (heap s) arg) k = None \<longrightarrow>
      read_prop (heap s) k (evaluation_context H s arg) = e) \<and>
   (conditions s = [c] \<and> read_prop (heap s) ''check'' c = JFun f \<and>
    (\<forall>ctx. call H f (heap s) c ctx = Inr (read_prop (heap s) k ctx)) \<longrightarrow>
      fst (evaluate H s arg) =
        RVal (if truthy (read_prop (heap s) k (evaluation_context H s arg))
              then JArr [match_entry (heap s) c] else defaultValue s)) \<and>
   (k \<noteq> ''env'' \<and> fmlookup (the_context s) k = None \<and> fmlookup (own_entries (heap s) arg) k = None \<longrightarrow>
      fmlookup
        (effective_context (heap s) (process_env H) (the_context s) (or_default arg (JObj fmempty))) k =
        None)"
proof (intro conjI impI)
  show "fmlookup (env_layer (process_env H)) k = Some e \<longleftrightarrow> k = ''env'' \<and> e = process_env H"
    by (auto simp: lookup_env_layer)
next
  assume "fmlookup (env_layer (process_env H)) k = Some e \<and> fmlookup (the_context s) k = Some a \<and>
    fmlookup (own_entries (heap s) arg) k = Some r"
  then show "read_prop (heap s) k (evaluation_context H s arg) = r"
    by (simp add: read_evaluation_context)
next
  assume "fmlookup (env_layer (process_env H)) k = Some e \<and> fmlookup (the_context s) k = Some a \<and>
    fmlookup (own_entries (heap s) arg) k = None"
  then show "read_prop (heap s) k (evaluation_context H s arg) = a"
    by (simp add: read_evaluation_context)
next
  assume "fmlookup (env_layer (process_env H)) k = Some e \<and> fmlookup (the_context s) k = None \<and>
    fmlookup (own_entries (heap s) arg) k = None"
  then show "read_prop (heap s) k (evaluation_context H s arg) = e"
    by (simp add: read_evaluation_context)
next
  assume "conditions s = [c] \<and> read_prop (heap s) ''check'' c = JFun f \<and>
    (\<forall>ctx. call H f (heap s) c ctx = Inr (read_prop (heap s) k ctx))"
  then show "fst (evaluate H s arg) =
        RVal (if truthy (read_prop (heap s) k (evaluation_context H s arg))
              then JArr [match_entry (heap s) c] else defaultValue s)"
    using evaluate_probe [of s c f H k arg] by blast
next
  assume "k \<noteq> ''env'' \<and> fmlookup (the_context s) k = None \<and> fmlookup (own_entries (heap s) arg) k = None"
  then show "fmlookup
      (effective_context (heap s) (process_env H) (the_context s) (or_default arg (JObj fmempty))) k = None"
    by (simp add: lookup_effective_context lookup_env_layer)
qed

text \<open>The key \<open>env\<close> set to \<open>'accumulated'\<close> by \<open>withContext\<close> and to \<open>'runtime'\<close> by the
  argument of \<open>evaluate\<close>; then without the runtime entry; then without either.  The last two
  lines run \<open>evaluate\<close> on the check \<open>(ctx) => ctx.env\<close> with the accumulated value \<open>''\<close>:
  it matches under the runtime value and falls to the default without it.  The last line:
  the environment variable \<open>NODE_ENV\<close> is not a key of the effective context.\<close>

theorem context_precedence_witness:
  "read_prop [] ''env''
     (evaluation_context example_host
        (snd (withContext (example_state [condition (JFun 3) ''has-env''] JNull)
                (JObj (fmap_of_list [(''env'', JStr ''accumulated'')]))))
        (JObj (fmap_of_list [(''env'', JStr ''runtime'')]))) = JStr ''runtime'' \<and>
   read_prop [] ''env''
     (evaluation_context example_host
        (snd (withContext (example_state [condition (JFun 3) ''has-env''] JNull)
                (JObj (fmap_of_list [(''env'', JStr ''accumulated'')]))))
        JUndefined) = JStr ''accumulated'' \<and>
   read_prop [] ''env''
     (evaluation_context example_host (example_state [condition (JFun 3) ''has-env''] JNull)
        JUndefined) = process_env example_host \<and>
   fst (evaluate example_host
          (snd (withContext (example_state [condition (JFun 3) ''has-env''] JNull)
                  (JObj (fmap_of_list [(''env'', JStr [])]))))
          (JObj (fmap_of_list [(''env'', JStr ''runtime'')]))) =
     RVal (JArr [JArr [JBool True, JStr ''has-env'']]) \<and>
   fst (evaluate example_host
          (snd (withContext (example_state [condition (JFun 3) ''has-env''] JNull)
                  (JObj (fmap_of_list [(''env'', JStr [])]))))
          JUndefined) = RVal JNull \<and>
   fmlookup
     (effective_context [fmempty] (process_env example_host)
        (the_context (example_state [condition (JFun 3) ''has-env''] JNull))
        (or_default JUndefined (JObj fmempty)))
     ''NODE_ENV'' = None"
proof -
  let ?c = "condition (JFun 3) ''has-env''"
  let ?init = "example_state [?c] JNull"
  let ?s = "snd (withContext ?init (JObj (fmap_of_list [(''env'', JStr ''accumulated'')])))"
  let ?u = "snd (withContext ?init (JObj (fmap_of_list [(''env'', JStr [])])))"
  let ?rt = "JObj (fmap_of_list [(''env'', JStr ''runtime'')])"
  let ?e = "process_env example_host"
  have store: "read_prop h ''env'' (evaluation_context example_host t x) =
               read_prop [] ''env'' (evaluation_context example_host t x)" for h t x
    by (simp add: evaluation_context_def read_prop_def)
  have e: "fmlookup (env_layer ?e) ''env'' = Some ?e"
    by (simp add: env_layer_def)
  have a: "fmlookup (the_context ?s) ''env'' = Some (JStr ''accumulated'')"
    by (simp add: withContext_object)
  have a0: "fmlookup (the_context ?init) ''env'' = None"
    by (simp add: example_state_def the_context_def)
  have au: "fmlookup (the_context ?u) ''env'' = Some (JStr [])"
    by (simp add: withContext_object)
  have r: "fmlookup (own_entries h ?rt) ''env'' = Some (JStr ''runtime'')" for h
    by simp
  have r0: "fmlookup (own_entries h JUndefined) ''env'' = None" for h
    by simp
  have p: "conditions ?u = [?c] \<and> read_prop (heap ?u) ''check'' ?c = JFun 3 \<and>
           (\<forall>ctx. call example_host 3 (heap ?u) ?c ctx = Inr (read_prop (heap ?u) ''env'' ctx))"
    by (simp add: example_state_def condition_def example_host_def read_prop_def)
  have m: "match_entry (heap ?u) ?c = JArr [JBool True, JStr ''has-env'']"
    by (simp add: match_entry_def condition_def read_prop_def)
  have d: "defaultValue ?u = JNull"
    by (simp add: example_state_def)
  have w1: "read_prop (heap ?s) ''env'' (evaluation_context example_host ?s ?rt) = JStr ''runtime''"
    using context_precedence [of example_host "''env''" ?e ?s "JStr ''accumulated''" ?rt
            "JStr ''runtime''", THEN conjunct2, THEN conjunct1] e a r by blast
  have w2: "read_prop (heap ?s) ''env'' (evaluation_context example_host ?s JUndefined) =
              JStr ''accumulated''"
    using context_precedence [of example_host "''env''" ?e ?s "JStr ''accumulated''" JUndefined,
            THEN conjunct2, THEN conjunct2, THEN conjunct1] e a r0 by blast
  have w3: "read_prop (heap ?init) ''env'' (evaluation_context example_host ?init JUndefined) = ?e"
    using context_precedence [of example_host "''env''" ?e ?init JNull JUndefined,
            THEN conjunct2, THEN conjunct2, THEN conjunct2, THEN conjunct1] e a0 r0 by blast
  have u1: "read_prop (heap ?u) ''env'' (evaluation_context example_host ?u ?rt) = JStr ''runtime''"
    using context_precedence [of example_host "''env''" ?e ?u "JStr []" ?rt
            "JStr ''runtime''", THEN conjunct2, THEN conjunct1] e au r by blast
  have u2: "read_prop (heap ?u) ''env'' (evaluation_context example_host ?u JUndefined) = JStr []"
    using context_precedence [of example_host "''env''" ?e ?u "JStr []" JUndefined,
            THEN conjunct2, THEN conjunct2, THEN conjunct1] e au r0 by blast
  have w4: "fst (evaluate example_host ?u ?rt) = RVal (JArr [JArr [JBool True, JStr ''has-env'']])"
    using context_precedence [of example_host "''env''" ?e ?u "JStr []" ?rt "JStr ''runtime''"
            ?c 3, THEN conjunct2, THEN conjunct2, THEN conjunct2, THEN conjunct2, THEN conjunct1] p
    unfolding u1 m by simp
  have w5: "fst (evaluate example_host ?u JUndefined) = RVal JNull"
    using context_precedence [of example_host "''env''" ?e ?u "JStr []" JUndefined JNull
            ?c 3, THEN conjunct2, THEN conjunct2, THEN conjunct2, THEN conjunct2, THEN conjunct1] p
    unfolding u2 m d by simp
  have a1: "fmlookup (the_context ?init) ''NODE_ENV'' = None"
    by (simp add: example_state_def the_context_def)
  have r1: "fmlookup (own_entries (heap ?init) JUndefined) ''NODE_ENV'' = None"
    by simp
  have ne: "''NODE_ENV'' \<noteq> ''env''"
    by simp
  have hp: "heap ?init = [fmempty]"
    by (simp add: example_state_def)
  have w6: "fmlookup (effective_context (heap ?init) (process_env example_host) (the_context ?init)
                        (or_default JUndefined (JObj fmempty))) ''NODE_ENV'' = None"
    using context_precedence [of example_host "''NODE_ENV''" JNull ?init JNull JUndefined JNull
            JNull 0, THEN conjunct2, THEN conjunct2, THEN conjunct2, THEN conjunct2,
            THEN conjunct2] ne a1 r1 by blast
  show ?thesis
    using w1 [unfolded store [of "heap ?s"]] w2 [unfolded store [of "heap ?s"]]
      w3 [unfolded store [of "heap ?init"]] w4 w5 w6 [unfolded hp]
    by blast
qed

subsection \<open>C6: the effective context is a shallow merge\<close>

text \<open>
  C6.  Every call of \<open>evaluate\<close> runs the checks on the context
  \<open>{env: process.env, ...accumulated, ...runtime}\<close>: the environment layer, overridden by
  the accumulated context, overridden by the runtime context.  A key of a higher layer
  replaces the value of the lower layer as a whole.  In particular, if the runtime context,
  or else the accumulated context, has its own \<open>env\<close> key, then \<open>ctx.env\<close> is that value
  and nothing of \<open>process.env\<close> is merged into it.
\<close>

theorem effective_context_shallow_merge:
  "evaluate H s arg =
     (case eval_conditions H (heap s)
             (JObj (effective_context (heap s) (process_env H) (the_context s) (or_default arg (JObj fmempty))))
             (conditions s) [] of
        Inl e \<Rightarrow> (RThrow e, s)
      | Inr ms \<Rightarrow> (RVal (if ms = [] then defaultValue s else JArr ms), s)) \<and>
   effective_context h penv acc rt = (env_layer penv ++\<^sub>f acc) ++\<^sub>f own_entries h rt \<and>
   fmlookup (effective_context h penv acc rt) k =
     (case fmlookup (own_entries h rt) k of
        Some v \<Rightarrow> Some v
      | None \<Rightarrow> (case fmlookup acc k of
                   Some v \<Rightarrow> Some v
                 | None \<Rightarrow> (if k = ''env'' then Some penv else None))) \<and>
   (fmlookup (own_entries h rt) ''env'' = Some v \<longrightarrow>
      fmlookup (effective_context h penv acc rt) ''env'' = Some v) \<and>
   (fmlookup (own_entries h rt) ''env'' = None \<and> fmlookup acc ''env'' = Some v \<longrightarrow>
      fmlookup (effective_context h penv acc rt) ''env'' = Some v)"
proof -
  have ev: "evaluate H s arg =
     (case eval_conditions H (heap s)
             (JObj (effective_context (heap s) (process_env H) (the_context s) (or_default arg (JObj fmempty))))
             (conditions s) [] of
        Inl e \<Rightarrow> (RThrow e, s)
      | Inr ms \<Rightarrow> (RVal (if ms = [] then defaultValue s else JArr ms), s))"
    using evaluate_unfold [of H s arg] by (simp add: evaluation_context_def)
  have eq: "effective_context h penv acc rt = (env_layer penv ++\<^sub>f acc) ++\<^sub>f own_entries h rt"
    by (simp add: effective_context_def env_layer_def)
  have lk: "fmlookup (effective_context h penv acc rt) k =
     (case fmlookup (own_entries h rt) k of
        Some v \<Rightarrow> Some v
      | None \<Rightarrow> (case fmlookup acc k of
                   Some v \<Rightarrow> Some v
                 | None \<Rightarrow> (if k = ''env'' then Some penv else None)))"
    unfolding lookup_effective_context lookup_env_layer ..
  have rt: "fmlookup (own_entries h rt) ''env'' = Some v \<longrightarrow>
      fmlookup (effective_context h penv acc rt) ''env'' = Some v"
    unfolding lookup_effective_context by simp
  have ac: "fmlookup (own_entries h rt) ''env'' = None \<and> fmlookup acc ''env'' = Some v \<longrightarrow>
      fmlookup (effective_context h penv acc rt) ''env'' = Some v"
    unfolding lookup_effective_context by simp
  show ?thesis
    using ev eq lk rt ac by blast
qed

text \<open>With \<open>process.env = {NODE_ENV: 'test', DEBUG: 'true'}\<close> and the accumulated context
  \<open>{env: {NODE_ENV: 'context-value'}, tier: 'basic'}\<close>, \<open>ctx.env\<close> is the accumulated
  object, in which \<open>DEBUG\<close> is not defined; with the runtime context \<open>{env: null}\<close>,
  \<open>ctx.env\<close> is \<open>null\<close>.\<close>

theorem effective_context_shallow_merge_witness:
  "fmlookup
     (effective_context [] (process_env example_host)
        (fmap_of_list [(''env'', JObj (fmap_of_list [(''NODE_ENV'', JStr ''context-value'')])),
                       (''tier'', JStr ''basic'')])
        (JObj (fmap_of_list [(''tier'', JStr ''premium'')])))
     ''env'' = Some (JObj (fmap_of_list [(''NODE_ENV'', JStr ''context-value'')])) \<and>
   read_prop [] ''DEBUG'' (process_env example_host) = JStr ''true'' \<and>
   read_prop [] ''DEBUG'' (JObj (fmap_of_list [(''NODE_ENV'', JStr ''context-value'')])) = JUndefined \<and>
   fmlookup
     (effective_context [] (process_env example_host)
        (fmap_of_list [(''env'', JObj (fmap_of_list [(''NODE_ENV'', JStr ''context-value'')])),
                       (''tier'', JStr ''basic'')])
        (JObj (fmap_of_list [(''tier'', JStr ''premium'')])))
     ''tier'' = Some (JStr ''premium'') \<and>
   fmlookup
     (effective_context [] (process_env example_host)
        (fmap_of_list [(''env'', JObj (fmap_of_list [(''NODE_ENV'', JStr ''context-value'')])),
                       (''tier'', JStr ''basic'')])
        (JObj (fmap_of_list [(''env'', JNull)])))
     ''env'' = Some JNull"
proof -
  let ?acc = "fmap_of_list [(''env'', JObj (fmap_of_list [(''NODE_ENV'', JStr ''context-value'')])),
                            (''tier'', JStr ''basic'')]"
  let ?rt = "JObj (fmap_of_list [(''tier'', JStr ''premium'')])"
  let ?v = "JObj (fmap_of_list [(''NODE_ENV'', JStr ''context-value'')])"
  note t = effective_context_shallow_merge
             [of example_host "example_state [] JNull" JUndefined "[]" "process_env example_host"
                 ?acc ?rt _ ?v]
  have h: "fmlookup (own_entries [] ?rt) ''env'' = None \<and> fmlookup ?acc ''env'' = Some ?v"
    by simp
  have w1: "fmlookup (effective_context [] (process_env example_host) ?acc ?rt) ''env'' = Some ?v"
    using t [THEN conjunct2, THEN conjunct2, THEN conjunct2, THEN conjunct2] h by blast
  have w2: "fmlookup (effective_context [] (process_env example_host) ?acc ?rt) ''tier'' =
              Some (JStr ''premium'')"
    using t [of "''tier''", THEN conjunct2, THEN conjunct2, THEN conjunct1] by simp
  have w3: "read_prop [] ''DEBUG'' (process_env example_host) = JStr ''true''"
    by (simp add: example_host_def read_prop_def)
  have h4: "fmlookup (own_entries [] (JObj (fmap_of_list [(''env'', JNull)]))) ''env'' = Some JNull"
    by simp
  have w4: "fmlookup (effective_context [] (process_env example_host) ?acc
                        (JObj (fmap_of_list [(''env'', JNull)]))) ''env'' = Some JNull"
    using effective_context_shallow_merge
            [of example_host "example_state [] JNull" JUndefined "[]" "process_env example_host"
                ?acc "JObj (fmap_of_list [(''env'', JNull)])" _ JNull,
             THEN conjunct2, THEN conjunct2, THEN conjunct2, THEN conjunct1] h4
    by blast
  show ?thesis
    using w1 w2 w3 w4 by (simp add: read_prop_def)
qed

subsection \<open>C3: a check that raises\<close>

text \<open>
  What \<open>evaluate\<close> does at the first check that raises.  Let the condition list be
  \<open>pre @ c # post\<close>, where no check of \<open>pre\<close> raises and the check of \<open>c\<close> is a function
  that throws a value \<open>t\<close>.  Then \<open>evaluate\<close> raises what the handler throws for \<open>c\<close> and
  \<open>t\<close>, whatever \<open>post\<close> holds and whatever \<open>pre\<close> has matched, and the builder is as
  before.  If \<open>c.name\<close> has a text, \<open>t\<close> is neither \<open>null\<close> nor \<open>undefined\<close> and
  \<open>t.message\<close> has a text, the handler throws the \<open>Error\<close> with the message
  \<open>Error evaluating condition '<name>': <message>\<close>.  If \<open>c.name\<close> has no text (a
  symbol, an object whose \<open>toString\<close> throws), the handler throws what the conversion
  throws.  If \<open>c.name\<close> has a text and \<open>t\<close> is \<open>null\<close> or \<open>undefined\<close>, it throws a
  TypeError instead.
\<close>

lemma evaluate_stops_at_first_failure:
  assumes "conditions s = pre @ c # post"
      and "\<forall>p \<in> set pre. \<not> check_raises H (heap s) (evaluation_context H s arg) p"
      and "read_prop (heap s) ''check'' c = JFun f"
      and "call H f (heap s) c (evaluation_context H s arg) = Inl t"
  shows "evaluate H s arg = (RThrow (rethrown H (heap s) c t), s)"
proof -
  have out: "check_outcome H (heap s) (evaluation_context H s arg) c = Inl t"
    using assms(3,4) by (simp add: check_outcome_def)
  show ?thesis
    using eval_conditions_first_raise [OF assms(2) out, of post "[]"]
    by (simp add: evaluate_unfold assms(1))
qed

lemma rethrown_message:
  assumes "to_string H h (read_prop h ''name'' c) = Inr name"
      and "t \<noteq> JNull" and "t \<noteq> JUndefined"
      and "to_string H h (read_prop h ''message'' t) = Inr message"
  shows "rethrown H h c t =
         Error (''Error evaluating condition '' @ quoted name @ '': '' @ message)"
proof -
  have "message_of h t = Inr (read_prop h ''message'' t)"
    using assms(2,3) by (cases t) simp_all
  then show ?thesis
    using assms(1,4) by (simp add: rethrown_formatted)
qed

lemma rethrown_name_without_text:
  assumes "to_string H h (read_prop h ''name'' c) = Inl e"
  shows "rethrown H h c t = e"
  using assms by (simp add: rethrown_def)

lemma rethrown_null_or_undefined:
  assumes "to_string H h (read_prop h ''name'' c) = Inr name"
  shows "rethrown H h c JNull =
           TypeError ''Cannot read properties of null (reading 'message')''"
    and "rethrown H h c JUndefined =
           TypeError ''Cannot read properties of undefined (reading 'message')''"
  using assms by (simp_all add: rethrown_def)

text \<open>
  C3.  The claim is that for every callable check that raises, \<open>evaluate\<close> raises an error
  whose message is exactly \<open>Error evaluating condition '<name>': <underlying message>\<close>.
  The handler \<open>catch (error) { throw new Error(`... ${error.message}`) }\<close> is written to
  wrap every failure in that way (the test \<open>should handle function errors gracefully\<close>
  expects the wrapped message), but a check may throw any value, and the handler reads
  \<open>error.message\<close> without asking whether \<open>error\<close> has properties.  The code at the
  input \<open>createEnvironmentNameBuilder([{ check: () => { throw null }, name: 'x' }]).evaluate()\<close>:
  construction succeeds, the check throws \<open>null\<close>, the read of \<open>error.message\<close> in the handler
  fails, and \<open>evaluate\<close> raises the TypeError
  \<open>Cannot read properties of null (reading 'message')\<close>, whose message names neither the
  condition nor the failure.  For comparison, the check of the repository's test, which
  throws \<open>new Error('Test error')\<close> under the name \<open>error-func\<close>, gives the wrapped message.
\<close>

theorem evaluate_throw_null_raises_type_error:
  "createEnvironmentNameBuilder [] (JArr [condition (JFun 2) ''x'']) JUndefined =
     Inr (example_state [condition (JFun 2) ''x''] (JArr [])) \<and>
   call example_host 2 [fmempty] (condition (JFun 2) ''x'')
     (evaluation_context example_host (example_state [condition (JFun 2) ''x''] (JArr []))
        JUndefined) =
     Inl JNull \<and>
   evaluate example_host (example_state [condition (JFun 2) ''x''] (JArr [])) JUndefined =
     (RThrow (TypeError ''Cannot read properties of null (reading 'message')''),
      example_state [condition (JFun 2) ''x''] (JArr [])) \<and>
   evaluate example_host (example_state [condition (JFun 1) ''error-func''] (JArr [])) JUndefined =
     (RThrow (Error (''Error evaluating condition '' @ quoted ''error-func'' @ '': Test error'')),
      example_state [condition (JFun 1) ''error-func''] (JArr []))"
  by (simp add: createEnvironmentNameBuilder_def or_default_def condition_def example_state_def
        evaluate_def condition_result_def example_host_def has_property_def read_prop_def
        rethrown_def)

section \<open>Claims about the accumulated context\<close>

subsection \<open>C7: withContext merges a record and ignores everything else\<close>

text \<open>
  C7.  In every state, \<open>withContext(ctx)\<close> returns the evaluator itself, raises nothing and
  leaves the condition list and the default value alone.  If \<open>ctx\<close> is a non-null record
  that is not a sequence (a value \<open>JObj m\<close>, or a reference to an object of the store), the
  accumulated context becomes its shallow merge with \<open>ctx\<close>, the keys of \<open>ctx\<close> winning;
  two calls in a row compose, the later call winning on shared keys.  With any other
  argument (a sequence, \<open>null\<close>, a primitive, \<open>undefined\<close>, a function) the accumulated
  context is unchanged.
\<close>

theorem withContext_merges_or_ignores:
  "fst (withContext s arg) = RThis \<and>
   conditions (snd (withContext s arg)) = conditions s \<and>
   defaultValue (snd (withContext s arg)) = defaultValue s \<and>
   the_context (snd (withContext s (JObj m))) = the_context s ++\<^sub>f m \<and>
   fmlookup (the_context (snd (withContext s (JObj m)))) k =
     (case fmlookup m k of Some v \<Rightarrow> Some v | None \<Rightarrow> fmlookup (the_context s) k) \<and>
   fmlookup (the_context (snd (withContext (snd (withContext s (JObj m))) (JObj m')))) k =
     (case fmlookup m' k of
        Some v \<Rightarrow> Some v
      | None \<Rightarrow> (case fmlookup m k of Some v \<Rightarrow> Some v | None \<Rightarrow> fmlookup (the_context s) k)) \<and>
   ((\<forall>m. arg \<noteq> JObj m) \<and> (\<forall>a. arg \<noteq> JRef a) \<longrightarrow>
      the_context (snd (withContext s arg)) = the_context s) \<and>
   (entries (heap s) arg = Some e \<longrightarrow>
      the_context (snd (withContext s arg)) = the_context s ++\<^sub>f e \<and>
      fmlookup (the_context (snd (withContext s arg))) k =
        (case fmlookup e k of Some v \<Rightarrow> Some v | None \<Rightarrow> fmlookup (the_context s) k)) \<and>
   the_context (snd (withContext s (JRef a))) = the_context s ++\<^sub>f cell (heap s) a"
proof -
  have merged: "the_context (snd (withContext s (JObj m))) = the_context s ++\<^sub>f m"
    by (simp add: withContext_object)
  have twice: "the_context (snd (withContext (snd (withContext s (JObj m))) (JObj m'))) =
      (the_context s ++\<^sub>f m) ++\<^sub>f m'"
    by (simp add: withContext_object)
  have other: "(\<forall>m. arg \<noteq> JObj m) \<and> (\<forall>a. arg \<noteq> JRef a) \<longrightarrow>
      the_context (snd (withContext s arg)) = the_context s"
    using withContext_other [of s arg] by (simp add: entries_None_iff)
  have obj: "entries (heap s) arg = Some e \<longrightarrow>
      the_context (snd (withContext s arg)) = the_context s ++\<^sub>f e \<and>
      fmlookup (the_context (snd (withContext s arg))) k =
        (case fmlookup e k of Some v \<Rightarrow> Some v | None \<Rightarrow> fmlookup (the_context s) k)"
  proof
    assume en: "entries (heap s) arg = Some e"
    have eq: "the_context (snd (withContext s arg)) = the_context s ++\<^sub>f e"
      by (simp add: withContext_object [OF en])
    show "the_context (snd (withContext s arg)) = the_context s ++\<^sub>f e \<and>
      fmlookup (the_context (snd (withContext s arg))) k =
        (case fmlookup e k of Some v \<Rightarrow> Some v | None \<Rightarrow> fmlookup (the_context s) k)"
      unfolding eq lookup_add_cases by simp
  qed
  have ref: "the_context (snd (withContext s (JRef a))) = the_context s ++\<^sub>f cell (heap s) a"
    by (simp add: withContext_object)
  have first: "fst (withContext s arg) = RThis \<and>
      conditions (snd (withContext s arg)) = conditions s \<and>
      defaultValue (snd (withContext s arg)) = defaultValue s"
    by simp
  have l1: "fmlookup (the_context (snd (withContext s (JObj m)))) k =
     (case fmlookup m k of Some v \<Rightarrow> Some v | None \<Rightarrow> fmlookup (the_context s) k)"
    unfolding merged lookup_add_cases ..
  have l2: "fmlookup (the_context (snd (withContext (snd (withContext s (JObj m))) (JObj m')))) k =
     (case fmlookup m' k of
        Some v \<Rightarrow> Some v
      | None \<Rightarrow> (case fmlookup m k of Some v \<Rightarrow> Some v | None \<Rightarrow> fmlookup (the_context s) k))"
    unfolding twice lookup_add_cases ..
  show ?thesis
    using first merged l1 l2 other obj ref by blast
qed

text \<open>On a new builder: \<open>withContext({value: 'first', tier: 'basic'})\<close> then
  \<open>withContext({value: 'second'})\<close> leaves \<open>value\<close> at \<open>'second'\<close> and \<open>tier\<close> at
  \<open>'basic'\<close>; \<open>withContext([])\<close> changes nothing; \<open>withContext(c)\<close> with a reference \<open>c\<close> to
  the object \<open>{tier: 'premium'}\<close> sets \<open>tier\<close>.\<close>

theorem withContext_merges_or_ignores_witness:
  "fmlookup
     (the_context
        (snd (withContext
           (snd (withContext (example_state [] (JArr []))
              (JObj (fmap_of_list [(''value'', JStr ''first''), (''tier'', JStr ''basic'')]))))
           (JObj (fmap_of_list [(''value'', JStr ''second'')])))))
     ''value'' = Some (JStr ''second'') \<and>
   (\<forall>m. JArr [] \<noteq> JObj m) \<and> (\<forall>a. JArr [] \<noteq> JRef a) \<and>
   the_context (snd (withContext (example_state [] (JArr [])) (JArr []))) =
     the_context (example_state [] (JArr [])) \<and>
   entries [fmap_of_list [(''tier'', JStr ''premium'')], fmempty] (JRef 0) =
     Some (fmap_of_list [(''tier'', JStr ''premium'')]) \<and>
   fmlookup
     (the_context
        (snd (withContext
           \<lparr>conditions = [], defaultValue = JNull, this_context = 1,
              heap = [fmap_of_list [(''tier'', JStr ''premium'')], fmempty]\<rparr>
           (JRef 0))))
     ''tier'' = Some (JStr ''premium'')"
proof -
  let ?t = "\<lparr>conditions = [], defaultValue = JNull, this_context = 1,
              heap = [fmap_of_list [(''tier'', JStr ''premium'')], fmempty]\<rparr>"
  let ?e = "fmap_of_list [(''tier'', JStr ''premium'')]"
  have w1: "fmlookup
     (the_context
        (snd (withContext
           (snd (withContext (example_state [] (JArr []))
              (JObj (fmap_of_list [(''value'', JStr ''first''), (''tier'', JStr ''basic'')]))))
           (JObj (fmap_of_list [(''value'', JStr ''second'')])))))
     ''value'' = Some (JStr ''second'') \<and>
   (\<forall>m. JArr [] \<noteq> JObj m) \<and> (\<forall>a. JArr [] \<noteq> JRef a) \<and>
   the_context (snd (withContext (example_state [] (JArr [])) (JArr []))) =
     the_context (example_state [] (JArr []))"
    using withContext_merges_or_ignores
          [of "example_state [] (JArr [])" "JArr []"
              "fmap_of_list [(''value'', JStr ''first''), (''tier'', JStr ''basic'')]"
              "''value''" "fmap_of_list [(''value'', JStr ''second'')]"]
    by simp
  have en: "entries (heap ?t) (JRef 0) = Some ?e"
    by (simp add: cell_def)
  have "fmlookup (the_context (snd (withContext ?t (JRef 0)))) ''tier'' =
          (case fmlookup ?e ''tier'' of
             Some v \<Rightarrow> Some v
           | None \<Rightarrow> fmlookup (the_context ?t) ''tier'')"
    using withContext_merges_or_ignores [of ?t "JRef 0" fmempty "''tier''" fmempty ?e] en
    by blast
  then have w2: "fmlookup (the_context (snd (withContext ?t (JRef 0)))) ''tier'' =
                   Some (JStr ''premium'')"
    by simp
  show ?thesis
    using w1 w2 en by simp
qed

subsection \<open>C8: getContext returns a shallow copy\<close>

text \<open>
  C8, as the code has it.  In every state with validated conditions whose \<open>_context\<close>
  refers to an object of the store, \<open>getContext\<close> returns a reference \<open>r\<close> to a new object
  that has the entries of the accumulated context and is not the object \<open>_context\<close> refers
  to.  Whatever a caller then does to the own properties of the returned object (any
  object \<open>obj\<close> may stand in cell \<open>r\<close> afterwards), the accumulated context stays as it
  was, a following \<open>getContext\<close> returns the same mapping, and a following \<open>evaluate\<close>
  hands the same context object to the checks, for every argument other than the returned
  object itself.  The result of that \<open>evaluate\<close> is the same as without the write,
  provided the argument is not the returned object and what the conditions themselves
  compute (a check, the text of a name or of a message) does not depend on the object in
  cell \<open>r\<close>.  The copy is shallow: the value under each key of the returned object is the
  very value that the accumulated context holds, so an object stored under a key is shared
  between the two, and the statement does not extend to writes into such an object.
\<close>

theorem getContext_returns_shallow_copy:
  assumes "wf_state s"
      and "getContext s = (RVal (JRef r), s')"
  shows "result_object (getContext s) = Some (the_context s) \<and>
         r = length (heap s) \<and>
         r \<noteq> this_context s' \<and>
         the_context s' = the_context s \<and>
         conditions s' = conditions s \<and> defaultValue s' = defaultValue s \<and>
         the_context (overwrite r obj s') = the_context s \<and>
         result_object (getContext (overwrite r obj s')) = Some (the_context s) \<and>
         (arg \<noteq> JRef r \<longrightarrow>
            evaluation_context H (overwrite r obj s') arg = evaluation_context H s' arg) \<and>
         (arg \<noteq> JRef r \<and>
          (\<forall>c \<in> set (conditions s).
             condition_result H (heap (overwrite r obj s')) (evaluation_context H s' arg) c =
             condition_result H (heap s') (evaluation_context H s' arg) c) \<longrightarrow>
            fst (evaluate H (overwrite r obj s') arg) = fst (evaluate H s' arg))"
proof -
  have bound: "this_context s < length (heap s)"
    and valid: "list_all (valid_condition (heap s)) (conditions s)"
    using assms(1) by (simp_all add: wf_state_def)
  have r: "r = length (heap s)" and s': "s' = s\<lparr>heap := heap s @ [the_context s]\<rparr>"
    using assms(2) by (simp_all add: getContext_eq)
  have ov: "overwrite r obj s' = s\<lparr>heap := heap s @ [obj]\<rparr>"
    unfolding r s' by (simp add: overwrite_def)
  have neq: "r \<noteq> this_context s'"
    using bound by (simp add: r s')
  have same: "the_context s' = the_context s"
    unfolding s' by (rule the_context_heap_append [OF bound])
  have over: "the_context (overwrite r obj s') = the_context s"
    unfolding ov by (rule the_context_heap_append [OF bound])
  have again: "result_object (getContext (overwrite r obj s')) = Some (the_context s)"
    using over by simp
  have ctx: "evaluation_context H (overwrite r obj s') arg = evaluation_context H s' arg"
    if "arg \<noteq> JRef r"
  proof -
    have "arg \<noteq> JRef (length (heap s))"
      using that by (simp add: r)
    from own_entries_append [OF this, of obj "the_context s"]
    have "evaluation_context H (s\<lparr>heap := heap s @ [obj]\<rparr>) arg =
          evaluation_context H (s\<lparr>heap := heap s @ [the_context s]\<rparr>) arg"
      using the_context_heap_append [OF bound]
      by (simp add: evaluation_context_def effective_context_def)
    then show ?thesis
      unfolding ov unfolding s' .
  qed
  have h1: "heap (overwrite r obj s') = heap s @ [obj]"
    by (simp add: ov)
  have h2: "heap s' = heap s @ [the_context s]"
    by (simp add: s')
  have names: "\<forall>c \<in> set (conditions s).
                 match_entry (heap (overwrite r obj s')) c = match_entry (heap s') c"
    unfolding h1 h2 using valid by (simp add: match_entry_append list_all_iff)
  have ev: "fst (evaluate H (overwrite r obj s') arg) = fst (evaluate H s' arg)"
    if a: "arg \<noteq> JRef r"
      and b: "\<forall>c \<in> set (conditions s).
             condition_result H (heap (overwrite r obj s')) (evaluation_context H s' arg) c =
             condition_result H (heap s') (evaluation_context H s' arg) c"
  proof -
    have loop: "eval_conditions H (heap (overwrite r obj s')) (evaluation_context H s' arg)
                  (conditions s) [] =
                eval_conditions H (heap s') (evaluation_context H s' arg) (conditions s) []"
      by (rule eval_conditions_cong [OF b names])
    have fields: "conditions (overwrite r obj s') = conditions s" "conditions s' = conditions s"
                 "defaultValue (overwrite r obj s') = defaultValue s"
                 "defaultValue s' = defaultValue s"
      by (simp_all add: ov) (simp_all add: s')
    show ?thesis
      unfolding evaluate_unfold ctx [OF a] fields loop by (simp split: sum.splits)
  qed
  show ?thesis
    using r neq same over again ctx ev by (simp add: s')
qed

text \<open>The test of the repository: after \<open>withContext({value: 'original'})\<close> the caller
  sets \<open>value\<close> to \<open>'modified'\<close> in the object that \<open>getContext\<close> returned; the
  accumulated context and the next \<open>getContext\<close> still have \<open>'original'\<close>.  And with
  the condition \<open>{ check: (ctx) => ctx.tier === 'premium', name: 'p' }\<close>: after
  \<open>withContext({tier: 'premium'})\<close> and the write of \<open>'basic'\<close> to \<open>tier\<close> in the returned
  object, \<open>evaluate()\<close> still matches.\<close>

theorem getContext_returns_shallow_copy_witness:
  "fst (getContext
          (snd (withContext (example_state [] JNull)
                  (JObj (fmap_of_list [(''value'', JStr ''original'')]))))) = RVal (JRef 2) \<and>
   fmlookup
     (the_context
        (overwrite 2 (fmap_of_list [(''value'', JStr ''modified'')])
           (snd (getContext
                   (snd (withContext (example_state [] JNull)
                           (JObj (fmap_of_list [(''value'', JStr ''original'')]))))))))
     ''value'' = Some (JStr ''original'') \<and>
   result_object
     (getContext
        (overwrite 2 (fmap_of_list [(''value'', JStr ''modified'')])
           (snd (getContext
                   (snd (withContext (example_state [] JNull)
                           (JObj (fmap_of_list [(''value'', JStr ''original'')])))))))) =
     Some (fmap_of_list [(''value'', JStr ''original'')]) \<and>
   fst (evaluate example_host
          (overwrite 2 (fmap_of_list [(''tier'', JStr ''basic'')])
             (snd (getContext
                     (snd (withContext (example_state [condition (JFun 0) ''p''] JNull)
                             (JObj (fmap_of_list [(''tier'', JStr ''premium'')])))))))
          JUndefined) =
     RVal (JArr [JArr [JBool True, JStr ''p'']])"
proof -
  let ?s = "snd (withContext (example_state [] JNull)
                   (JObj (fmap_of_list [(''value'', JStr ''original'')])))"
  let ?m = "fmap_of_list [(''value'', JStr ''modified'')]"
  have s: "?s = \<lparr>conditions = [], defaultValue = JNull, this_context = 1,
                  heap = [fmempty, fmap_of_list [(''value'', JStr ''original'')]]\<rparr>"
    by (simp add: withContext_object example_state_def set_context_def the_context_def)
  have ctx: "the_context ?s = fmap_of_list [(''value'', JStr ''original'')]"
    by (simp add: withContext_object example_state_def the_context_def)
  have a1: "wf_state ?s"
    unfolding s by (simp add: wf_state_def)
  have a2: "getContext ?s = (RVal (JRef 2), snd (getContext ?s))"
    unfolding s by (simp add: getContext_def)
  note t = getContext_returns_shallow_copy [OF a1 a2, of ?m JUndefined example_host]
  have w1: "fst (getContext ?s) = RVal (JRef 2)"
    using arg_cong [OF a2, of fst] by simp
  have w2: "the_context (overwrite 2 ?m (snd (getContext ?s))) =
              fmap_of_list [(''value'', JStr ''original'')]"
    using t unfolding ctx by blast
  have w3: "result_object (getContext (overwrite 2 ?m (snd (getContext ?s)))) =
              Some (fmap_of_list [(''value'', JStr ''original'')])"
    using t unfolding ctx by blast
  let ?c = "condition (JFun 0) ''p''"
  let ?u = "snd (withContext (example_state [?c] JNull)
                   (JObj (fmap_of_list [(''tier'', JStr ''premium'')])))"
  let ?b = "fmap_of_list [(''tier'', JStr ''basic'')]"
  have u: "?u = \<lparr>conditions = [?c], defaultValue = JNull, this_context = 1,
                  heap = [fmempty, fmap_of_list [(''tier'', JStr ''premium'')]]\<rparr>"
    by (simp add: withContext_object example_state_def set_context_def the_context_def)
  have b1: "wf_state ?u"
    unfolding u by (simp add: wf_state_def valid_condition_def has_property_def condition_def)
  have b2: "getContext ?u = (RVal (JRef 2), snd (getContext ?u))"
    unfolding u by (simp add: getContext_def)
  have u': "snd (getContext ?u) =
              \<lparr>conditions = [?c], defaultValue = JNull, this_context = 1,
                 heap = [fmempty, fmap_of_list [(''tier'', JStr ''premium'')],
                         fmap_of_list [(''tier'', JStr ''premium'')]]\<rparr>"
    unfolding u by (simp add: getContext_def the_context_def)
  have b3: "JUndefined \<noteq> JRef 2"
    by simp
  have b4: "\<forall>c \<in> set (conditions ?u).
              condition_result example_host (heap (overwrite 2 ?b (snd (getContext ?u))))
                (evaluation_context example_host (snd (getContext ?u)) JUndefined) c =
              condition_result example_host (heap (snd (getContext ?u)))
                (evaluation_context example_host (snd (getContext ?u)) JUndefined) c"
    unfolding u'
    by (simp add: example_state_def overwrite_def condition_result_def read_prop_def
          condition_def example_host_def evaluation_context_def)
  have e: "fst (evaluate example_host (snd (getContext ?u)) JUndefined) =
             RVal (JArr [JArr [JBool True, JStr ''p'']])"
    unfolding u'
    by (simp add: evaluate_def condition_result_def read_prop_def condition_def example_host_def
          effective_context_def or_default_def the_context_def match_entry_def)
  have "fst (evaluate example_host (overwrite 2 ?b (snd (getContext ?u))) JUndefined) =
          fst (evaluate example_host (snd (getContext ?u)) JUndefined)"
    using getContext_returns_shallow_copy [OF b1 b2, of ?b JUndefined example_host] b3 b4
    by blast
  then have w4: "fst (evaluate example_host (overwrite 2 ?b (snd (getContext ?u))) JUndefined) =
                   RVal (JArr [JArr [JBool True, JStr ''p'']])"
    unfolding e .
  show ?thesis
    unfolding w1 w2 w3 w4 by simp
qed

text \<open>
  C8 as stated lets any mutation of the returned mapping leave the results of later calls
  unchanged.  The copy \<open>{ ...this._context }\<close> copies the entries, not the objects under
  them.  A caller creates the object \<open>cfg = { on: false }\<close> (cell \<open>0\<close>), builds an evaluator
  with the condition \<open>{ check: (ctx) => ctx.cfg?.on, name: 'on' }\<close> and the default value
  \<open>'off'\<close>, calls \<open>withContext({ cfg })\<close> and \<open>c = getContext()\<close>.  The returned object
  holds, under \<open>cfg\<close>, the same reference as the accumulated context.  Before the write
  \<open>evaluate()\<close> returns \<open>'off'\<close>; after \<open>c.cfg.on = true\<close> it returns
  \<open>[ [true, 'on'] ]\<close>, although no method of the evaluator has been called in between and
  the entries of the accumulated context are what they were.
\<close>

theorem getContext_nested_write_counterexample:
  "createEnvironmentNameBuilder [fmap_of_list [(''on'', JBool False)]]
     (JArr [condition (JFun 4) ''on'']) (JStr ''off'') =
     Inr \<lparr>conditions = [condition (JFun 4) ''on''], defaultValue = JStr ''off'',
          this_context = 1, heap = [fmap_of_list [(''on'', JBool False)], fmempty]\<rparr> \<and>
   getContext
     (snd (withContext
             \<lparr>conditions = [condition (JFun 4) ''on''], defaultValue = JStr ''off'',
                this_context = 1, heap = [fmap_of_list [(''on'', JBool False)], fmempty]\<rparr>
             (JObj (fmap_of_list [(''cfg'', JRef 0)])))) =
     (RVal (JRef 3),
      \<lparr>conditions = [condition (JFun 4) ''on''], defaultValue = JStr ''off'',
         this_context = 2,
         heap = [fmap_of_list [(''on'', JBool False)], fmempty,
                 fmap_of_list [(''cfg'', JRef 0)], fmap_of_list [(''cfg'', JRef 0)]]\<rparr>) \<and>
   fst (evaluate example_host
          \<lparr>conditions = [condition (JFun 4) ''on''], defaultValue = JStr ''off'',
             this_context = 2,
             heap = [fmap_of_list [(''on'', JBool False)], fmempty,
                     fmap_of_list [(''cfg'', JRef 0)], fmap_of_list [(''cfg'', JRef 0)]]\<rparr>
          JUndefined) = RVal (JStr ''off'') \<and>
   nested_write 3 ''cfg'' ''on'' (JBool True)
     \<lparr>conditions = [condition (JFun 4) ''on''], defaultValue = JStr ''off'',
        this_context = 2,
        heap = [fmap_of_list [(''on'', JBool False)], fmempty,
                fmap_of_list [(''cfg'', JRef 0)], fmap_of_list [(''cfg'', JRef 0)]]\<rparr> =
     Some \<lparr>conditions = [condition (JFun 4) ''on''], defaultValue = JStr ''off'',
            this_context = 2,
            heap = [fmap_of_list [(''on'', JBool True)], fmempty,
                    fmap_of_list [(''cfg'', JRef 0)], fmap_of_list [(''cfg'', JRef 0)]]\<rparr> \<and>
   fst (evaluate example_host
          \<lparr>conditions = [condition (JFun 4) ''on''], defaultValue = JStr ''off'',
             this_context = 2,
             heap = [fmap_of_list [(''on'', JBool True)], fmempty,
                     fmap_of_list [(''cfg'', JRef 0)], fmap_of_list [(''cfg'', JRef 0)]]\<rparr>
          JUndefined) = RVal (JArr [JArr [JBool True, JStr ''on'']])"
  by (simp add: createEnvironmentNameBuilder_def or_default_def condition_def has_property_def
        withContext_def set_context_def the_context_def getContext_def
        evaluate_def condition_result_def read_prop_def example_host_def cell_def
        effective_context_def match_entry_def nested_write_def overwrite_def)

subsection \<open>C9: what the calls leave alone\<close>

text \<open>
  C9.  Every call, and every sequence of calls, leaves the condition list and the default
  value as they were.  \<open>evaluate\<close> returns the state it was given: accumulated context,
  condition list and default value.  \<open>resetContext\<close> returns the evaluator, makes the
  accumulated context empty and changes nothing else (the objects already in the store stay
  as they are).  No call other than \<open>resetContext\<close> removes a key of the accumulated
  context, \<open>getContext\<close> and \<open>evaluate\<close> leave it as it is, and a sequence of calls without
  \<open>resetContext\<close> keeps every key.  The calls keep the state well-formed, and no call
  writes to an object that is already in the store.
\<close>

theorem operations_preserve_conditions_and_default:
  "conditions (snd (step H s c)) = conditions s \<and>
   defaultValue (snd (step H s c)) = defaultValue s \<and>
   conditions (run s calls) = conditions s \<and>
   defaultValue (run s calls) = defaultValue s \<and>
   snd (evaluate H s arg) = s \<and>
   fst (resetContext s) = RThis \<and>
   the_context (snd (resetContext s)) = fmempty \<and>
   heap (snd (resetContext s)) = heap s @ [fmempty] \<and>
   conditions (snd (resetContext s)) = conditions s \<and>
   defaultValue (snd (resetContext s)) = defaultValue s \<and>
   (wf_state s \<and> c \<noteq> ResetContext \<longrightarrow>
      fmdom (the_context s) |\<subseteq>| fmdom (the_context (snd (step H s c)))) \<and>
   (wf_state s \<and> (c = GetContext \<or> (\<exists>a. c = Evaluate a)) \<longrightarrow>
      the_context (snd (step H s c)) = the_context s) \<and>
   (wf_state s \<and> ResetContext \<notin> snd ` set calls \<longrightarrow>
      fmdom (the_context s) |\<subseteq>| fmdom (the_context (run s calls))) \<and>
   (wf_state s \<longrightarrow> wf_state (snd (step H s c)) \<and> wf_state (run s calls)) \<and>
   take (length (heap s)) (heap (snd (step H s c))) = heap s"
proof (intro conjI impI)
  show "take (length (heap s)) (heap (snd (step H s c))) = heap s"
    by (rule heap_step)
next
  assume "wf_state s \<and> c \<noteq> ResetContext"
  then show "fmdom (the_context s) |\<subseteq>| fmdom (the_context (snd (step H s c)))"
    using keys_step by blast
next
  assume a: "wf_state s \<and> (c = GetContext \<or> (\<exists>a. c = Evaluate a))"
  then have "this_context s < length (heap s)"
    by (simp add: wf_state_def)
  from the_context_heap_append [OF this] a
  show "the_context (snd (step H s c)) = the_context s"
    by (auto simp: snd_getContext)
next
  assume "wf_state s \<and> ResetContext \<notin> snd ` set calls"
  then show "fmdom (the_context s) |\<subseteq>| fmdom (the_context (run s calls))"
    using keys_run by blast
next
  assume "wf_state s"
  then show "wf_state (snd (step H s c))"
    by (rule wf_state_step)
next
  assume "wf_state s"
  then show "wf_state (run s calls)"
    by (rule wf_state_run)
qed (simp_all add: resetContext_def)

text \<open>After \<open>withContext({tier: 'premium'})\<close>, the calls \<open>evaluate()\<close>, \<open>getContext()\<close> and
  \<open>withContext({region: 'us'})\<close> keep the key \<open>tier\<close> and the condition list.\<close>

theorem operations_preserve_conditions_and_default_witness:
  "wf_state
     (snd (withContext (example_state [condition (JBool True) ''a''] JNull)
             (JObj (fmap_of_list [(''tier'', JStr ''premium'')])))) \<and>
   ResetContext \<notin>
     snd ` set [(example_host, Evaluate JUndefined), (example_host, GetContext),
                (example_host, WithContext (JObj (fmap_of_list [(''region'', JStr ''us'')])))] \<and>
   ''tier'' |\<in>|
     fmdom (the_context
       (run (snd (withContext (example_state [condition (JBool True) ''a''] JNull)
                    (JObj (fmap_of_list [(''tier'', JStr ''premium'')]))))
          [(example_host, Evaluate JUndefined), (example_host, GetContext),
           (example_host, WithContext (JObj (fmap_of_list [(''region'', JStr ''us'')])))])) \<and>
   conditions
     (run (snd (withContext (example_state [condition (JBool True) ''a''] JNull)
                  (JObj (fmap_of_list [(''tier'', JStr ''premium'')]))))
        [(example_host, Evaluate JUndefined), (example_host, GetContext),
         (example_host, WithContext (JObj (fmap_of_list [(''region'', JStr ''us'')])))]) =
     [condition (JBool True) ''a''] \<and>
   ''tier'' |\<in>|
     fmdom (the_context
       (snd (step example_host
               (snd (withContext (example_state [condition (JBool True) ''a''] JNull)
                       (JObj (fmap_of_list [(''tier'', JStr ''premium'')]))))
               (WithContext (JObj (fmap_of_list [(''tier'', JNull)])))))) \<and>
   the_context
     (snd (step example_host
             (snd (withContext (example_state [condition (JBool True) ''a''] JNull)
                     (JObj (fmap_of_list [(''tier'', JStr ''premium'')]))))
             GetContext)) =
     fmap_of_list [(''tier'', JStr ''premium'')] \<and>
   wf_state
     (run (snd (withContext (example_state [condition (JBool True) ''a''] JNull)
                  (JObj (fmap_of_list [(''tier'', JStr ''premium'')]))))
        [(example_host, Evaluate JUndefined), (example_host, GetContext),
         (example_host, WithContext (JObj (fmap_of_list [(''region'', JStr ''us'')])))])"
proof -
  let ?init = "example_state [condition (JBool True) ''a''] JNull"
  let ?s = "snd (withContext ?init (JObj (fmap_of_list [(''tier'', JStr ''premium'')])))"
  let ?calls = "[(example_host, Evaluate JUndefined), (example_host, GetContext),
                 (example_host, WithContext (JObj (fmap_of_list [(''region'', JStr ''us'')])))]"
  let ?w = "WithContext (JObj (fmap_of_list [(''tier'', JNull)]))"
  have wf: "wf_state ?s"
    by (simp add: withContext_object wf_state_def example_state_def valid_condition_def
          has_property_def condition_def)
  have nr: "ResetContext \<notin> snd ` set ?calls"
    by simp
  have tier: "''tier'' |\<in>| fmdom (the_context ?s)"
    by (simp add: withContext_object)
  have ctx: "the_context ?s = fmap_of_list [(''tier'', JStr ''premium'')]"
    by (simp add: withContext_object example_state_def the_context_def)
  note t = operations_preserve_conditions_and_default
             [of example_host ?s "Evaluate JUndefined" ?calls JUndefined]
  note tw = operations_preserve_conditions_and_default [of example_host ?s ?w "[]" JUndefined]
  note tg = operations_preserve_conditions_and_default
              [of example_host ?s GetContext "[]" JUndefined]
  have keys: "fmdom (the_context ?s) |\<subseteq>| fmdom (the_context (run ?s ?calls))"
    using t wf nr by blast
  have w3: "''tier'' |\<in>| fmdom (the_context (run ?s ?calls))"
    using keys tier by blast
  have w4: "conditions (run ?s ?calls) = conditions ?s"
    using t by blast
  have c: "conditions ?s = [condition (JBool True) ''a'']"
    by (simp add: example_state_def)
  have nw: "?w \<noteq> ResetContext"
    by simp
  have keys1: "fmdom (the_context ?s) |\<subseteq>| fmdom (the_context (snd (step example_host ?s ?w)))"
    using tw wf nw by blast
  have w5: "''tier'' |\<in>| fmdom (the_context (snd (step example_host ?s ?w)))"
    using keys1 tier by blast
  have w6: "the_context (snd (step example_host ?s GetContext)) = the_context ?s"
    using tg wf by blast
  have w7: "wf_state (run ?s ?calls)"
    using t wf by blast
  show ?thesis
    using wf nr w3 w4 w5 w6 w7 unfolding c ctx by blast
qed

subsection \<open>C10: withContext with a function argument\<close>

text \<open>
  C10.  In every state and for every function \<open>f\<close>, \<open>withContext(f)\<close> returns the evaluator
  itself and changes nothing: the state after the call is the state before it, and a
  following \<open>getContext\<close> returns the same mapping as one made before the call.
\<close>

theorem withContext_function_ignored:
  "withContext s (JFun f) = (RThis, s) \<and>
   result_object (getContext (snd (withContext s (JFun f)))) = result_object (getContext s)"
  by (simp add: withContext_def or_default_def)

theorem withContext_function_ignored_witness:
  "withContext
     (snd (withContext (example_state [] (JArr [])) (JObj (fmap_of_list [(''a'', JNum 1)]))))
     (JFun 0) =
   (RThis, snd (withContext (example_state [] (JArr [])) (JObj (fmap_of_list [(''a'', JNum 1)]))))"
  using withContext_function_ignored
          [of "snd (withContext (example_state [] (JArr [])) (JObj (fmap_of_list [(''a'', JNum 1)])))" 0]
  by simp

end
